theory Spec2Isabelle
  imports Complex_Main "HOL-Library.Word"
begin

unbundle bit_operations_syntax

section \<open>Errors raised by the platform\<close>

text \<open>
  The session manager of \<^verbatim>\<open>services/liveService\<close> runs in a browser. The exceptions
  that its calls into the platform can raise are values of one datatype; a function that
  can throw returns \<open>js_error + 'a\<close>, with \<open>Inl\<close> for the exception.
\<close>

datatype js_error =
    InvalidCharacterError  \<comment> \<open>\<^verbatim>\<open>atob\<close> / \<^verbatim>\<open>btoa\<close> on a string they cannot handle\<close>
  | RangeError             \<comment> \<open>\<^verbatim>\<open>new Int16Array(buffer)\<close> on a buffer of odd byte length\<close>
  | NotSupportedError      \<comment> \<open>\<^verbatim>\<open>createBuffer\<close> with a zero argument\<close>
  | NotAllowedError        \<comment> \<open>\<^verbatim>\<open>getUserMedia\<close> refused\<close>
  | NotFoundError          \<comment> \<open>\<^verbatim>\<open>getUserMedia\<close> found no input device\<close>

section \<open>PCM codec\<close>

subsection \<open>Samples and 16-bit conversion\<close>

text \<open>
  A finite \<^verbatim>\<open>Float32Array\<close> element is a dyadic rational; samples are modelled as \<open>rat\<close>.
  For a finite 32-bit float \<open>s\<close> with \<open>\<bar>s\<bar> \<le> 1\<close> the products \<open>s * 0x8000\<close> and
  \<open>s * 0x7FFF\<close> need at most 39 significant bits, so the double-precision arithmetic of
  \<^verbatim>\<open>createPcmBlob\<close> is exact and agrees with the rational arithmetic below; likewise
  \<open>n / 32768\<close> for a 16-bit \<open>n\<close> is exactly a 32-bit float. \<^verbatim>\<open>NaN\<close> is outside the model.
\<close>

definition clamp_sample :: "rat \<Rightarrow> rat" where
  \<comment> \<open>\<^verbatim>\<open>Math.max(-1, Math.min(1, data[i]))\<close>\<close>
  "clamp_sample x = max (- 1) (min 1 x)"

definition trunc :: "rat \<Rightarrow> int" where
  \<comment> \<open>the integral part of a number, rounding towards zero\<close>
  "trunc r = (if r < 0 then \<lceil>r\<rceil> else \<lfloor>r\<rfloor>)"

definition to_int16 :: "rat \<Rightarrow> 16 word" where
  \<comment> \<open>a store into an \<^verbatim>\<open>Int16Array\<close>: truncate, then reduce modulo \<open>2 ^ 16\<close>\<close>
  "to_int16 r = word_of_int (trunc r)"

definition pcm_sample :: "rat \<Rightarrow> 16 word" where
  \<comment> \<open>the body of the first loop of \<^verbatim>\<open>createPcmBlob\<close>; \<open>0x8000 = 32768\<close>, \<open>0x7FFF = 32767\<close>\<close>
  "pcm_sample x = (let s = clamp_sample x in to_int16 (if s < 0 then s * 32768 else s * 32767))"

subsection \<open>Typed-array views\<close>

text \<open>
  \<^verbatim>\<open>new Uint8Array(int16.buffer)\<close> and \<^verbatim>\<open>new Int16Array(bytes.buffer)\<close> read the same
  memory in the byte order of the platform, which is little-endian on every platform the
  browsers run on: the low byte of each element comes first.
\<close>

fun int16_bytes :: "16 word list \<Rightarrow> 8 word list" where
  "int16_bytes [] = []"
| "int16_bytes (w # ws) = ucast w # ucast (drop_bit 8 w) # int16_bytes ws"

fun bytes_int16 :: "8 word list \<Rightarrow> 16 word list" where
  "bytes_int16 (lo # hi # bs) = (ucast lo OR push_bit 8 (ucast hi)) # bytes_int16 bs"
| "bytes_int16 _ = []"

definition new_Int16Array :: "8 word list \<Rightarrow> js_error + 16 word list" where
  \<comment> \<open>the constructor throws when the byte length is not a multiple of the element size\<close>
  "new_Int16Array bytes =
     (if length bytes mod 2 \<noteq> 0 then Inl RangeError else Inr (bytes_int16 bytes))"

subsection \<open>Base64: \<^verbatim>\<open>btoa\<close> and \<^verbatim>\<open>atob\<close>\<close>

text \<open>
  A JavaScript binary string is the list of its code units (\<open>nat\<close>). \<^verbatim>\<open>btoa\<close> throws on
  a code unit above 255 and otherwise encodes with padding; \<^verbatim>\<open>atob\<close> is the platform's
  forgiving decoder: it drops ASCII whitespace, removes one or two trailing \<open>=\<close> when the
  length is a multiple of 4, rejects a length of 1 modulo 4 and any character outside the
  alphabet, and discards the bits left over at the end.
\<close>

definition b64_alphabet :: string where
  "b64_alphabet = ''ABCDEFGHIJKLMNOPQRSTUVWXYZabcdefghijklmnopqrstuvwxyz0123456789+/''"

definition b64_char :: "nat \<Rightarrow> char" where
  "b64_char n = b64_alphabet ! (n mod 64)"

fun index_of :: "char \<Rightarrow> string \<Rightarrow> nat option" where
  "index_of c [] = None"
| "index_of c (x # xs) = (if c = x then Some 0 else map_option Suc (index_of c xs))"

definition b64_index :: "char \<Rightarrow> nat option" where
  "b64_index c = index_of c b64_alphabet"

fun b64_encode :: "nat list \<Rightarrow> string" where
  "b64_encode (a # b # c # bs) =
     b64_char (a div 4) # b64_char ((a mod 4) * 16 + b div 16)
       # b64_char ((b mod 16) * 4 + c div 64) # b64_char (c mod 64) # b64_encode bs"
| "b64_encode [a, b] =
     [b64_char (a div 4), b64_char ((a mod 4) * 16 + b div 16), b64_char ((b mod 16) * 4), CHR ''='']"
| "b64_encode [a] = [b64_char (a div 4), b64_char ((a mod 4) * 16), CHR ''='', CHR ''='']"
| "b64_encode [] = []"

definition btoa :: "nat list \<Rightarrow> js_error + string" where
  "btoa binary =
     (if list_ex (\<lambda>c. 255 < c) binary then Inl InvalidCharacterError else Inr (b64_encode binary))"

definition ascii_whitespace :: "char \<Rightarrow> bool" where
  "ascii_whitespace c \<longleftrightarrow> of_char c \<in> {9, 10, 12, 13, 32 :: nat}"

definition strip_padding :: "string \<Rightarrow> string" where
  \<comment> \<open>remove one or two trailing \<open>=\<close>\<close>
  "strip_padding d =
     (if d \<noteq> [] \<and> last d = CHR ''=''
      then (let d' = butlast d in if d' \<noteq> [] \<and> last d' = CHR ''='' then butlast d' else d')
      else d)"

fun b64_decode :: "nat list \<Rightarrow> nat list" where
  "b64_decode (s0 # s1 # s2 # s3 # ss) =
     (s0 * 4 + s1 div 16) # ((s1 mod 16) * 16 + s2 div 4) # ((s2 mod 4) * 64 + s3) # b64_decode ss"
| "b64_decode [s0, s1, s2] = [s0 * 4 + s1 div 16, (s1 mod 16) * 16 + s2 div 4]"
| "b64_decode [s0, s1] = [s0 * 4 + s1 div 16]"
| "b64_decode _ = []"

definition atob :: "string \<Rightarrow> js_error + nat list" where
  "atob base64 =
     (let d1 = filter (\<lambda>c. \<not> ascii_whitespace c) base64;
          d2 = (if length d1 mod 4 = 0 then strip_padding d1 else d1)
      in if length d2 mod 4 = 1 then Inl InvalidCharacterError
         else (case those (map b64_index d2) of
                 None \<Rightarrow> Inl InvalidCharacterError
               | Some sextets \<Rightarrow> Inr (b64_decode sextets)))"

subsection \<open>\<^verbatim>\<open>createPcmBlob\<close> and \<^verbatim>\<open>decodeAudioData\<close>\<close>

record pcm_blob =
  data :: string
  mimeType :: string

definition createPcmBlob :: "rat list \<Rightarrow> js_error + pcm_blob" where
  "createPcmBlob samples =
     (let int16 = map pcm_sample samples;
          bytes = int16_bytes int16;
          binary = map unat bytes   \<comment> \<open>\<^verbatim>\<open>binary += String.fromCharCode(bytes[i])\<close>\<close>
      in case btoa binary of
           Inl e \<Rightarrow> Inl e
         | Inr b \<Rightarrow> Inr \<lparr>data = b, mimeType = ''audio/pcm;rate=16000''\<rparr>)"

record audio_buffer =
  numberOfChannels :: nat
  sampleRate :: nat
  channelData :: "rat list"

definition duration :: "audio_buffer \<Rightarrow> rat" where
  "duration b = of_nat (length (channelData b)) / of_nat (sampleRate b)"

definition createBuffer :: "nat \<Rightarrow> nat \<Rightarrow> nat \<Rightarrow> js_error + audio_buffer" where
  \<comment> \<open>Web Audio: a buffer has at least one channel, one frame and a positive rate\<close>
  "createBuffer channels frames rate =
     (if channels = 0 \<or> frames = 0 \<or> rate = 0 then Inl NotSupportedError
      else Inr \<lparr>numberOfChannels = channels, sampleRate = rate, channelData = replicate frames 0\<rparr>)"

definition decodeAudioData :: "string \<Rightarrow> js_error + audio_buffer" where
  \<comment> \<open>the context argument serves only to create the buffer\<close>
  "decodeAudioData base64 =
     (case atob base64 of
        Inl e \<Rightarrow> Inl e
      | Inr binaryString \<Rightarrow>
          (let bytes = map of_nat binaryString   \<comment> \<open>\<^verbatim>\<open>bytes[i] = binaryString.charCodeAt(i)\<close>\<close>
           in case new_Int16Array bytes of
                Inl e \<Rightarrow> Inl e
              | Inr dataInt16 \<Rightarrow>
                  (let numChannels = 1; sampleRate = 24000;
                       frameCount = length dataInt16 div numChannels
                   in case createBuffer numChannels frameCount sampleRate of
                        Inl e \<Rightarrow> Inl e
                      | Inr buffer \<Rightarrow>
                          Inr (buffer\<lparr>channelData :=
                                 map (\<lambda>w. of_int (sint w) / 32768) (take frameCount dataInt16)\<rparr>))))"


section \<open>The session manager\<close>

subsection \<open>Messages, tool calls and the record of effects\<close>

text \<open>
  Arguments and results of tool calls are JSON values; the manager only passes them on, so
  they are opaque strings here. A tool callback is given by what its promise settles to:
  \<open>Inr\<close> the result, or \<open>Inl\<close> the value it threw or rejected with.
\<close>

type_synonym json = string

record function_call =
  fc_id :: string
  fc_name :: string
  fc_args :: json

datatype response_body = Result json | Error string

record function_response =
  fr_id :: string
  fr_name :: string
  fr_response :: response_body

type_synonym tool_callback = "string \<Rightarrow> json \<Rightarrow> string + json"

text \<open>
  The parts of a \<^verbatim>\<open>LiveServerMessage\<close> that \<^verbatim>\<open>handleMessage\<close> reads:
  \<^verbatim>\<open>toolCall.functionCalls\<close>, the string at
  \<^verbatim>\<open>serverContent?.modelTurn?.parts?.[0]?.inlineData?.data\<close> and
  \<^verbatim>\<open>serverContent?.interrupted\<close>.
\<close>

record server_message =
  toolCall :: "function_call list option"
  inlineData :: "string option"
  interrupted :: bool

text \<open>
  Every call that leaves the manager (to the audio graph, the microphone, the connection,
  the application) is appended to a trace, in the order in which the calls are made.
\<close>

datatype effect =
    ToolCalled string json                       \<comment> \<open>\<^verbatim>\<open>onToolCall(fc.name, fc.args)\<close>\<close>
  | ToolResponseSent nat "function_response list"  \<comment> \<open>\<^verbatim>\<open>session.sendToolResponse\<close> on a session\<close>
  | SourceStarted nat rat rat                    \<comment> \<open>\<^verbatim>\<open>source.start(when)\<close>: node, \<open>when\<close>, buffer duration\<close>
  | SourceStopped nat                            \<comment> \<open>\<^verbatim>\<open>source.stop()\<close>\<close>
  | ContextCreated nat nat                       \<comment> \<open>\<^verbatim>\<open>new AudioContextClass({sampleRate})\<close>\<close>
  | ContextClosed nat                            \<comment> \<open>\<^verbatim>\<open>context.close()\<close>\<close>
  | MicAcquired nat                              \<comment> \<open>\<^verbatim>\<open>getUserMedia\<close> granted a stream\<close>
  | MicStopped nat                               \<comment> \<open>every track of the stream stopped\<close>
  | SessionConnected nat                         \<comment> \<open>\<^verbatim>\<open>ai.live.connect\<close> established a session\<close>
  | SessionClosed nat                            \<comment> \<open>\<^verbatim>\<open>session.close()\<close>\<close>
  | ProcessorCreated nat                         \<comment> \<open>\<^verbatim>\<open>createScriptProcessor(4096, 1, 1)\<close>, connected\<close>
  | ProcessorDisconnected nat                    \<comment> \<open>\<^verbatim>\<open>processor.disconnect()\<close>, callback cleared\<close>
  | InputSourceCreated nat                       \<comment> \<open>\<^verbatim>\<open>createMediaStreamSource\<close>\<close>
  | InputSourceDisconnected nat                  \<comment> \<open>\<^verbatim>\<open>source.disconnect()\<close>\<close>
  | RealtimeInputSent nat pcm_blob               \<comment> \<open>\<^verbatim>\<open>session.sendRealtimeInput({media})\<close>\<close>
  | ConsoleError js_error                        \<comment> \<open>a caught exception, logged\<close>
  | ConsoleWarn

subsection \<open>State\<close>

text \<open>
  Times are seconds on the output context's clock, idealised as rationals (the rounding of
  double-precision sums is outside the model). An audio context carries its own clock,
  which the platform advances between events. A promise is modelled by what it settles to.
\<close>

record audio_context =
  ctx_id :: nat
  ctx_sampleRate :: nat
  currentTime :: rat

record source_node =
  node_id :: nat
  buffer :: audio_buffer

datatype session_promise = Fulfilled nat | Rejected

record manager =
  activeSessionPromise :: "session_promise option"
  inputAudioContext :: "audio_context option"
  outputAudioContext :: "audio_context option"
  mediaStream :: "nat option"
  processor :: "nat option"
  source :: "nat option"
  nextStartTime :: rat
  sources :: "source_node list"    \<comment> \<open>a \<^verbatim>\<open>Set\<close>: insertion order, no node twice\<close>
  outputNode :: "nat option"
  trace :: "effect list"           \<comment> \<open>the calls made so far\<close>
  fresh :: nat                     \<comment> \<open>the next unused object identity\<close>

definition initial :: manager where
  \<comment> \<open>the field initialisers of \<^verbatim>\<open>LiveSessionManager\<close>\<close>
  "initial = \<lparr>activeSessionPromise = None, inputAudioContext = None, outputAudioContext = None,
     mediaStream = None, processor = None, source = None, nextStartTime = 0, sources = [],
     outputNode = None, trace = [], fresh = 0\<rparr>"

definition emit :: "effect list \<Rightarrow> manager \<Rightarrow> manager" where
  "emit es m = m\<lparr>trace := trace m @ es\<rparr>"

text \<open>Two things the platform does to the state: the clock runs, and a source ends.\<close>

definition tick :: "rat \<Rightarrow> manager \<Rightarrow> manager" where
  "tick d m = m\<lparr>outputAudioContext :=
     map_option (\<lambda>c. c\<lparr>currentTime := currentTime c + d\<rparr>) (outputAudioContext m)\<rparr>"

definition source_ended :: "nat \<Rightarrow> manager \<Rightarrow> manager" where
  \<comment> \<open>the \<^verbatim>\<open>'ended'\<close> listener: \<^verbatim>\<open>this.sources.delete(source)\<close>\<close>
  "source_ended i m = m\<lparr>sources := filter (\<lambda>s. node_id s \<noteq> i) (sources m)\<rparr>"

subsection \<open>Playback\<close>

definition schedulePlayback :: "audio_buffer \<Rightarrow> audio_context \<Rightarrow> manager \<Rightarrow> manager" where
  \<comment> \<open>\<^verbatim>\<open>handleMessage\<close>, from \<^verbatim>\<open>// Schedule playback\<close> to \<^verbatim>\<open>this.sources.add(source)\<close>\<close>
  "schedulePlayback audioBuffer ctx m =
     (let startAt = max (nextStartTime m) (currentTime ctx);
          node = \<lparr>node_id = fresh m, buffer = audioBuffer\<rparr>
      in m\<lparr>nextStartTime := startAt + duration audioBuffer,
           sources := sources m @ [node],
           trace := trace m @ [SourceStarted (fresh m) startAt (duration audioBuffer)],
           fresh := Suc (fresh m)\<rparr>)"

definition stopAudioPlayback :: "manager \<Rightarrow> manager" where
  "stopAudioPlayback m =
     m\<lparr>trace := trace m @ map (\<lambda>s. SourceStopped (node_id s)) (sources m),
       sources := [],
       nextStartTime := (case outputAudioContext m of Some ctx \<Rightarrow> currentTime ctx | None \<Rightarrow> 0)\<rparr>"

subsection \<open>Handling one message\<close>

definition tool_response :: "function_call \<Rightarrow> string + json \<Rightarrow> function_response" where
  \<comment> \<open>the two \<^verbatim>\<open>responses.push\<close> of the loop: after the \<^verbatim>\<open>await\<close>, and in the \<^verbatim>\<open>catch\<close>\<close>
  "tool_response fc outcome =
     (case outcome of
        Inr result \<Rightarrow> \<lparr>fr_id = fc_id fc, fr_name = fc_name fc, fr_response = Result result\<rparr>
      | Inl err \<Rightarrow>
          \<lparr>fr_id = fc_id fc, fr_name = fc_name fc, fr_response = Error ''Failed to execute function''\<rparr>)"

definition send_responses :: "function_response list \<Rightarrow> manager \<Rightarrow> effect list" where
  \<comment> \<open>\<^verbatim>\<open>this.activeSessionPromise?.then(session => session.sendToolResponse(...))\<close>\<close>
  "send_responses responses m =
     (case activeSessionPromise m of
        Some (Fulfilled session) \<Rightarrow> [ToolResponseSent session responses]
      | _ \<Rightarrow> [])"

definition handle_audio :: "string \<Rightarrow> audio_context \<Rightarrow> manager \<Rightarrow> manager" where
  \<comment> \<open>the \<^verbatim>\<open>try\<close> / \<^verbatim>\<open>catch\<close> under \<^verbatim>\<open>// Handle Audio Output\<close>\<close>
  "handle_audio base64Audio ctx m =
     (case decodeAudioData base64Audio of
        Inl err \<Rightarrow> emit [ConsoleError err] m
      | Inr audioBuffer \<Rightarrow> schedulePlayback audioBuffer ctx m)"

definition handle_interruption :: "server_message \<Rightarrow> manager \<Rightarrow> manager" where
  "handle_interruption message m = (if interrupted message then stopAudioPlayback m else m)"

text \<open>
  What \<^verbatim>\<open>handleMessage\<close> does once the loop over the function calls is over. The
  \<^verbatim>\<open>then\<close> callback that sends the responses runs as a microtask: at the
  \<^verbatim>\<open>await\<close> of the audio branch when that branch is taken, and otherwise when the
  handler has run to its end. An empty string is falsy, as is a missing one.
\<close>

definition finish_message :: "function_response list option \<Rightarrow> server_message \<Rightarrow> manager \<Rightarrow> manager" where
  "finish_message responses message m =
     (let send = (case responses of Some rs \<Rightarrow> send_responses rs m | None \<Rightarrow> [])
      in case (inlineData message, outputAudioContext m, outputNode m) of
           (Some (c # cs), Some ctx, Some node) \<Rightarrow>
              handle_interruption message (handle_audio (c # cs) ctx (emit send m))
         | _ \<Rightarrow> emit send (handle_interruption message m))"

definition handleMessage :: "server_message \<Rightarrow> tool_callback option \<Rightarrow> manager \<Rightarrow> manager" where
  \<comment> \<open>every callback settles before anything else happens\<close>
  "handleMessage message onToolCall m =
     (case (toolCall message, onToolCall) of
        (Some functionCalls, Some callback) \<Rightarrow>
           finish_message
             (Some (map (\<lambda>fc. tool_response fc (callback (fc_name fc) (fc_args fc))) functionCalls))
             message
             (emit (map (\<lambda>fc. ToolCalled (fc_name fc) (fc_args fc)) functionCalls) m)
      | _ \<Rightarrow> finish_message None message m)"

subsection \<open>Life cycle\<close>

definition cleanup :: "manager \<Rightarrow> manager" where
  "cleanup m0 =
     (let m1 = stopAudioPlayback m0;
          m2 = (case processor m1 of
                  Some p \<Rightarrow> (emit [ProcessorDisconnected p] m1)\<lparr>processor := None\<rparr>
                | None \<Rightarrow> m1);
          m3 = (case source m2 of
                  Some s \<Rightarrow> (emit [InputSourceDisconnected s] m2)\<lparr>source := None\<rparr>
                | None \<Rightarrow> m2);
          m4 = (case mediaStream m3 of
                  Some ms \<Rightarrow> (emit [MicStopped ms] m3)\<lparr>mediaStream := None\<rparr>
                | None \<Rightarrow> m3);
          m5 = (case inputAudioContext m4 of
                  Some c \<Rightarrow> (emit [ContextClosed (ctx_id c)] m4)\<lparr>inputAudioContext := None\<rparr>
                | None \<Rightarrow> m4);
          m6 = (case outputAudioContext m5 of
                  Some c \<Rightarrow> (emit [ContextClosed (ctx_id c)] m5)\<lparr>outputAudioContext := None\<rparr>
                | None \<Rightarrow> m5)
      in m6\<lparr>activeSessionPromise := None, nextStartTime := 0\<rparr>)"

definition stopSession :: "bool \<Rightarrow> manager \<Rightarrow> manager" where
  \<comment> \<open>\<open>close_throws\<close>: whether \<^verbatim>\<open>session.close()\<close> throws after it has been called\<close>
  "stopSession close_throws m =
     cleanup
       (case activeSessionPromise m of
          None \<Rightarrow> m
        | Some Rejected \<Rightarrow> emit [ConsoleWarn] m
        | Some (Fulfilled session) \<Rightarrow>
            emit (SessionClosed session # (if close_throws then [ConsoleWarn] else [])) m)"

text \<open>
  What the platform answers during \<^verbatim>\<open>startSession\<close>: whether closing the previous
  session throws, whether \<^verbatim>\<open>getUserMedia\<close> grants the microphone, and whether the
  connection is established. The \<^verbatim>\<open>await\<close> of \<^verbatim>\<open>getUserMedia\<close> is the failure of the
  \<^verbatim>\<open>try\<close> block that is modelled; it is the one that happens after resources have
  been allocated.
\<close>

record start_env =
  close_throws :: bool
  user_media :: "js_error option"
  connects :: bool

definition startSession :: "start_env \<Rightarrow> manager \<Rightarrow> js_error option \<times> manager" where
  \<comment> \<open>the first component is the exception that \<^verbatim>\<open>startSession\<close> rethrows, if any\<close>
  "startSession env m0 =
     (let m1 = stopSession (close_throws env) m0;
          i = fresh m1;
          m2 = (emit [ContextCreated i 16000, ContextCreated (i + 1) 24000] m1)
                 \<lparr>inputAudioContext := Some \<lparr>ctx_id = i, ctx_sampleRate = 16000, currentTime = 0\<rparr>,
                  outputAudioContext := Some \<lparr>ctx_id = i + 1, ctx_sampleRate = 24000, currentTime = 0\<rparr>,
                  outputNode := Some (i + 2),
                  fresh := i + 3\<rparr>
      in case user_media env of
           Some err \<Rightarrow> (Some err, cleanup (emit [ConsoleError err] m2))
         | None \<Rightarrow>
             (let m3 = (emit [MicAcquired (i + 3)] m2)\<lparr>mediaStream := Some (i + 3), fresh := i + 4\<rparr>
              in if connects env
                 then (None, (emit [SessionConnected (i + 4)] m3)
                               \<lparr>activeSessionPromise := Some (Fulfilled (i + 4)), fresh := i + 5\<rparr>)
                 else (None, m3\<lparr>activeSessionPromise := Some Rejected\<rparr>)))"


definition onaudioprocess :: "rat list \<Rightarrow> session_promise \<Rightarrow> manager \<Rightarrow> manager" where
  \<comment> \<open>the processor's callback on a chunk of captured samples\<close>
  "onaudioprocess inputData sessionPromise m =
     (case createPcmBlob inputData of
        Inl err \<Rightarrow> m
      | Inr pcmBlob \<Rightarrow>
          (case sessionPromise of
             Fulfilled session \<Rightarrow> emit [RealtimeInputSent session pcmBlob] m
           | Rejected \<Rightarrow> m))"

definition onclose :: "nat \<Rightarrow> manager \<Rightarrow> manager" where
  \<comment> \<open>the \<^verbatim>\<open>onclose\<close> callback of a session, up to the application's \<^verbatim>\<open>onClose()\<close>;
      the trace records that the connection is closed\<close>
  "onclose session m = cleanup (emit [SessionClosed session] m)"

subsection \<open>The parts of \<^verbatim>\<open>stopSession\<close> and \<^verbatim>\<open>startSession\<close> between their awaits\<close>

text \<open>
  \<^verbatim>\<open>stopSession\<close> waits at \<^verbatim>\<open>await this.activeSessionPromise\<close>, holding the promise it
  has read from the field; \<^verbatim>\<open>startSession\<close> waits there too, inside its call of
  \<^verbatim>\<open>stopSession\<close>, and again at \<^verbatim>\<open>await getUserMedia(...)\<close>. The definitions
  \<open>stopSession\<close> and \<open>startSession\<close> above are the two functions when nothing else happens
  during these waits; the parts below are what runs before, between and after them.
\<close>

definition closing :: "bool \<Rightarrow> session_promise \<Rightarrow> effect list" where
  \<comment> \<open>the \<^verbatim>\<open>try\<close> block of \<^verbatim>\<open>stopSession\<close>, once the promise it awaits has settled\<close>
  "closing throws p =
     (case p of
        Rejected \<Rightarrow> [ConsoleWarn]
      | Fulfilled session \<Rightarrow> SessionClosed session # (if throws then [ConsoleWarn] else []))"

definition create_contexts :: "manager \<Rightarrow> manager" where
  \<comment> \<open>\<^verbatim>\<open>startSession\<close> from the end of \<^verbatim>\<open>stopSession\<close> to the call of \<^verbatim>\<open>getUserMedia\<close>\<close>
  "create_contexts m1 =
     (let i = fresh m1
      in (emit [ContextCreated i 16000, ContextCreated (i + 1) 24000] m1)
           \<lparr>inputAudioContext := Some \<lparr>ctx_id = i, ctx_sampleRate = 16000, currentTime = 0\<rparr>,
            outputAudioContext := Some \<lparr>ctx_id = i + 1, ctx_sampleRate = 24000, currentTime = 0\<rparr>,
            outputNode := Some (i + 2),
            fresh := i + 3\<rparr>)"

definition media_settled :: "js_error option \<Rightarrow> bool \<Rightarrow> manager \<Rightarrow> js_error option \<times> manager" where
  \<comment> \<open>\<^verbatim>\<open>startSession\<close> from the settling of \<^verbatim>\<open>getUserMedia\<close> to its end; the first
      component is the exception that is rethrown, if any\<close>
  "media_settled result established m2 =
     (let i = fresh m2
      in case result of
           Some err \<Rightarrow> (Some err, cleanup (emit [ConsoleError err] m2))
         | None \<Rightarrow>
             (let m3 = (emit [MicAcquired i] m2)\<lparr>mediaStream := Some i, fresh := i + 1\<rparr>
              in if established
                 then (None, (emit [SessionConnected (i + 1)] m3)
                               \<lparr>activeSessionPromise := Some (Fulfilled (i + 1)), fresh := i + 2\<rparr>)
                 else (None, m3\<lparr>activeSessionPromise := Some Rejected\<rparr>)))"

subsection \<open>Calls and handlers that overlap\<close>

text \<open>
  \<^verbatim>\<open>onmessage\<close> calls \<^verbatim>\<open>handleMessage\<close> and does not wait for the promise it returns.
  A handler that reaches \<^verbatim>\<open>await onToolCall(...)\<close> is suspended until the callback's
  promise settles. Until then the platform can deliver further events: messages, each of
  which starts a handler of its own; calls of \<^verbatim>\<open>startSession\<close> and \<^verbatim>\<open>stopSession\<close> by
  the application, which are suspended at the awaits named above; and the \<^verbatim>\<open>onclose\<close>
  callback of any session, current or not. What follows a settled promise runs as
  microtasks, before the next event; so does the continuation of every other \<^verbatim>\<open>await\<close>
  of the class, which waits for nothing that an event has to bring (\<^verbatim>\<open>session.close()\<close>
  returns no promise, \<^verbatim>\<open>decodeAudioData\<close> computes its buffer at once, and
  \<^verbatim>\<open>await this.stopSession()\<close> goes on when \<^verbatim>\<open>stopSession\<close> has run to its end). An
  event is what the platform delivers; the outcome of a promise comes with the event that
  settles it. When the awaited session promise is settled already, the event that resumes
  the call follows the call at once; the model also admits other events in between, as
  happens while a connection is still being established.
\<close>

record suspended_handler =
  sh_message :: server_message
  sh_call :: function_call                \<comment> \<open>the call whose promise is awaited\<close>
  sh_rest :: "function_call list"         \<comment> \<open>the calls still to be made\<close>
  sh_responses :: "function_response list"  \<comment> \<open>the responses pushed so far\<close>

datatype pending_call =
    AwaitingSession session_promise bool
      \<comment> \<open>\<^verbatim>\<open>stopSession\<close> at \<^verbatim>\<open>await this.activeSessionPromise\<close>: the promise it holds, and
          whether it was called by \<^verbatim>\<open>startSession\<close>\<close>
  | AwaitingMedia
      \<comment> \<open>\<^verbatim>\<open>startSession\<close> at \<^verbatim>\<open>await getUserMedia(...)\<close>\<close>

record event_loop =
  mgr :: manager
  suspended :: "nat \<rightharpoonup> suspended_handler"   \<comment> \<open>the handlers that wait for a callback\<close>
  calls :: "nat \<rightharpoonup> pending_call"            \<comment> \<open>the calls of \<^verbatim>\<open>startSession\<close> and \<^verbatim>\<open>stopSession\<close> that wait\<close>
  next_id :: nat                              \<comment> \<open>the identity of the next handler or call\<close>

datatype event =
    Message server_message        \<comment> \<open>a connection delivers a message\<close>
  | Settled nat "string + json"   \<comment> \<open>the promise awaited by this handler settles\<close>
  | ClockTick rat
  | SourceEnded nat
  | StartCalled                   \<comment> \<open>the application calls \<^verbatim>\<open>startSession\<close>\<close>
  | StopCalled                    \<comment> \<open>the application calls \<^verbatim>\<open>stopSession\<close>\<close>
  | SessionAwaited nat bool
      \<comment> \<open>the session promise awaited by this call has settled; whether \<^verbatim>\<open>session.close()\<close> throws\<close>
  | MediaSettled nat "js_error option" bool
      \<comment> \<open>\<^verbatim>\<open>getUserMedia\<close> of this call settles (\<open>None\<close>: granted); whether the connection
          requested next gets established\<close>
  | Closed nat                    \<comment> \<open>the \<^verbatim>\<open>onclose\<close> callback of a session runs\<close>

fun call_next ::
  "nat \<Rightarrow> server_message \<Rightarrow> function_call list \<Rightarrow> function_response list \<Rightarrow> event_loop \<Rightarrow> event_loop" where
  \<comment> \<open>the head of the loop over \<^verbatim>\<open>functionCalls\<close>, in the handler \<open>h\<close>\<close>
  "call_next h message [] responses el =
     el\<lparr>mgr := finish_message (Some responses) message (mgr el),
        suspended := (suspended el)(h := None)\<rparr>"
| "call_next h message (fc # fcs) responses el =
     el\<lparr>mgr := emit [ToolCalled (fc_name fc) (fc_args fc)] (mgr el),
        suspended := (suspended el)(h \<mapsto>
          \<lparr>sh_message = message, sh_call = fc, sh_rest = fcs, sh_responses = responses\<rparr>)\<rparr>"

definition on_message :: "bool \<Rightarrow> server_message \<Rightarrow> event_loop \<Rightarrow> event_loop" where
  \<comment> \<open>\<open>has_callback\<close>: whether \<^verbatim>\<open>onToolCall\<close> was given to \<^verbatim>\<open>startSession\<close>\<close>
  "on_message has_callback message el =
     (case toolCall message of
        Some functionCalls \<Rightarrow>
          if has_callback
          then call_next (next_id el) message functionCalls [] (el\<lparr>next_id := Suc (next_id el)\<rparr>)
          else el\<lparr>mgr := finish_message None message (mgr el)\<rparr>
      | None \<Rightarrow> el\<lparr>mgr := finish_message None message (mgr el)\<rparr>)"

definition on_settled :: "nat \<Rightarrow> string + json \<Rightarrow> event_loop \<Rightarrow> event_loop" where
  "on_settled h outcome el =
     (case suspended el h of
        Some sh \<Rightarrow>
          call_next h (sh_message sh) (sh_rest sh)
            (sh_responses sh @ [tool_response (sh_call sh) outcome]) el
      | None \<Rightarrow> el)"

definition on_start :: "event_loop \<Rightarrow> event_loop" where
  \<comment> \<open>\<^verbatim>\<open>startSession\<close> up to its first wait\<close>
  "on_start el =
     (case activeSessionPromise (mgr el) of
        Some p \<Rightarrow>
          el\<lparr>calls := (calls el)(next_id el \<mapsto> AwaitingSession p True), next_id := Suc (next_id el)\<rparr>
      | None \<Rightarrow>
          el\<lparr>mgr := create_contexts (cleanup (mgr el)),
             calls := (calls el)(next_id el \<mapsto> AwaitingMedia), next_id := Suc (next_id el)\<rparr>)"

definition on_stop :: "event_loop \<Rightarrow> event_loop" where
  \<comment> \<open>\<^verbatim>\<open>stopSession\<close> up to its wait, or to its end when there is no promise to wait for\<close>
  "on_stop el =
     (case activeSessionPromise (mgr el) of
        Some p \<Rightarrow>
          el\<lparr>calls := (calls el)(next_id el \<mapsto> AwaitingSession p False), next_id := Suc (next_id el)\<rparr>
      | None \<Rightarrow> el\<lparr>mgr := cleanup (mgr el)\<rparr>)"

definition on_session_awaited :: "nat \<Rightarrow> bool \<Rightarrow> event_loop \<Rightarrow> event_loop" where
  \<comment> \<open>the rest of \<^verbatim>\<open>stopSession\<close>; in \<^verbatim>\<open>startSession\<close>, on to the call of \<^verbatim>\<open>getUserMedia\<close>\<close>
  "on_session_awaited k throws el =
     (case calls el k of
        Some (AwaitingSession p from_start) \<Rightarrow>
          (let m1 = cleanup (emit (closing throws p) (mgr el))
           in if from_start
              then el\<lparr>mgr := create_contexts m1, calls := (calls el)(k \<mapsto> AwaitingMedia)\<rparr>
              else el\<lparr>mgr := m1, calls := (calls el)(k := None)\<rparr>)
      | _ \<Rightarrow> el)"

definition on_media_settled :: "nat \<Rightarrow> js_error option \<Rightarrow> bool \<Rightarrow> event_loop \<Rightarrow> event_loop" where
  \<comment> \<open>the rest of \<^verbatim>\<open>startSession\<close>; an exception goes to the caller\<close>
  "on_media_settled k result established el =
     (case calls el k of
        Some AwaitingMedia \<Rightarrow>
          el\<lparr>mgr := snd (media_settled result established (mgr el)), calls := (calls el)(k := None)\<rparr>
      | _ \<Rightarrow> el)"

fun step :: "bool \<Rightarrow> event_loop \<Rightarrow> event \<Rightarrow> event_loop" where
  "step has_callback el (Message message) = on_message has_callback message el"
| "step has_callback el (Settled h outcome) = on_settled h outcome el"
| "step has_callback el (ClockTick d) = el\<lparr>mgr := tick d (mgr el)\<rparr>"
| "step has_callback el (SourceEnded i) = el\<lparr>mgr := source_ended i (mgr el)\<rparr>"
| "step has_callback el StartCalled = on_start el"
| "step has_callback el StopCalled = on_stop el"
| "step has_callback el (SessionAwaited k throws) = on_session_awaited k throws el"
| "step has_callback el (MediaSettled k result established) = on_media_settled k result established el"
| "step has_callback el (Closed session) = el\<lparr>mgr := onclose session (mgr el)\<rparr>"

definition run :: "bool \<Rightarrow> event list \<Rightarrow> event_loop \<Rightarrow> event_loop" where
  "run has_callback events el = foldl (step has_callback) el events"

section \<open>Observations on the trace\<close>

fun tool_responses_sent :: "effect list \<Rightarrow> (nat \<times> function_response list) list" where
  "tool_responses_sent [] = []"
| "tool_responses_sent (ToolResponseSent session responses # es) =
     (session, responses) # tool_responses_sent es"
| "tool_responses_sent (e # es) = tool_responses_sent es"

fun starts :: "effect list \<Rightarrow> (rat \<times> rat) list" where
  \<comment> \<open>start time and duration of every buffer started, in order\<close>
  "starts [] = []"
| "starts (SourceStarted node startAt d # es) = (startAt, d) # starts es"
| "starts (e # es) = starts es"

fun no_overlap :: "(rat \<times> rat) list \<Rightarrow> bool" where
  "no_overlap ((s1, d1) # (s2, d2) # rest) = (s1 + d1 \<le> s2 \<and> no_overlap ((s2, d2) # rest))"
| "no_overlap _ = True"

fun back_to_back :: "(rat \<times> rat) list \<Rightarrow> bool" where
  "back_to_back ((s1, d1) # (s2, d2) # rest) = (s1 + d1 = s2 \<and> back_to_back ((s2, d2) # rest))"
| "back_to_back _ = True"

text \<open>
  Buffers arriving one after the other with no interruption in between: before each, the
  output clock advances by some amount.
\<close>

fun schedule_all :: "(rat \<times> audio_buffer) list \<Rightarrow> manager \<Rightarrow> manager" where
  "schedule_all [] m = m"
| "schedule_all ((d, b) # rest) m =
     (let m1 = tick d m
      in case outputAudioContext m1 of
           Some ctx \<Rightarrow> schedule_all rest (schedulePlayback b ctx m1)
         | None \<Rightarrow> schedule_all rest m1)"

text \<open>
  The schedule in the words of the specification: \<open>startAt = max(nextStartTime, now)\<close>,
  then \<open>nextStartTime = startAt + duration\<close>.
\<close>

fun expected_starts :: "rat \<Rightarrow> rat \<Rightarrow> (rat \<times> audio_buffer) list \<Rightarrow> (rat \<times> rat) list" where
  "expected_starts cursor clock [] = []"
| "expected_starts cursor clock ((d, b) # rest) =
     (let now = clock + d; startAt = max cursor now
      in (startAt, duration b) # expected_starts (startAt + duration b) now rest)"

fun on_time :: "rat \<Rightarrow> rat \<Rightarrow> (rat \<times> audio_buffer) list \<Rightarrow> bool" where
  \<comment> \<open>every buffer but the first arrives before the cursor is reached\<close>
  "on_time cursor clock [] = True"
| "on_time cursor clock ((d, b) # rest) =
     (let now = clock + d; startAt = max cursor now
      in (case rest of [] \<Rightarrow> True | (d', b') # r \<Rightarrow> now + d' \<le> startAt + duration b)
         \<and> on_time (startAt + duration b) now rest)"

text \<open>What is held at a point of the trace: acquired, opened or started, and not yet released.\<close>

definition mic_step :: "nat set \<Rightarrow> effect \<Rightarrow> nat set" where
  "mic_step S e = (case e of MicAcquired i \<Rightarrow> insert i S | MicStopped i \<Rightarrow> S - {i} | _ \<Rightarrow> S)"

definition live_mics :: "effect list \<Rightarrow> nat set" where
  "live_mics t = foldl mic_step {} t"

definition context_step :: "nat set \<Rightarrow> effect \<Rightarrow> nat set" where
  "context_step S e =
     (case e of ContextCreated i r \<Rightarrow> insert i S | ContextClosed i \<Rightarrow> S - {i} | _ \<Rightarrow> S)"

definition open_contexts :: "effect list \<Rightarrow> nat set" where
  "open_contexts t = foldl context_step {} t"

definition session_step :: "nat set \<Rightarrow> effect \<Rightarrow> nat set" where
  "session_step S e =
     (case e of SessionConnected i \<Rightarrow> insert i S | SessionClosed i \<Rightarrow> S - {i} | _ \<Rightarrow> S)"

definition open_sessions :: "effect list \<Rightarrow> nat set" where
  "open_sessions t = foldl session_step {} t"

definition processor_step :: "nat set \<Rightarrow> effect \<Rightarrow> nat set" where
  "processor_step S e =
     (case e of ProcessorCreated i \<Rightarrow> insert i S | ProcessorDisconnected i \<Rightarrow> S - {i} | _ \<Rightarrow> S)"

definition connected_processors :: "effect list \<Rightarrow> nat set" where
  "connected_processors t = foldl processor_step {} t"

definition playing_step :: "nat set \<Rightarrow> effect \<Rightarrow> nat set" where
  "playing_step S e =
     (case e of SourceStarted i w d \<Rightarrow> insert i S | SourceStopped i \<Rightarrow> S - {i} | _ \<Rightarrow> S)"

definition unstopped_sources :: "effect list \<Rightarrow> nat set" where
  \<comment> \<open>started and never told to stop\<close>
  "unstopped_sources t = foldl playing_step {} t"

text \<open>
  At no point of a trace are two microphone streams alive: the set of live streams, followed
  along the trace from the start, never has more than one element.
\<close>

fun mics_ok :: "nat set \<Rightarrow> effect list \<Rightarrow> bool" where
  "mics_ok S [] = (card S \<le> 1)"
| "mics_ok S (e # es) = (card S \<le> 1 \<and> mics_ok (mic_step S e) es)"

definition never_two_mics :: "effect list \<Rightarrow> bool" where
  "never_two_mics t = mics_ok {} t"

text \<open>
  The manager's fields account for everything that is held: the streams, contexts,
  sessions and processors alive at the end of the trace are the ones the fields refer to,
  every pending source was started, identities handed out so far are below \<open>fresh\<close>, and
  at no point of the trace were two microphone streams alive.
\<close>

definition accounted :: "manager \<Rightarrow> bool" where
  "accounted m \<longleftrightarrow>
     live_mics (trace m) = set_option (mediaStream m)
   \<and> open_contexts (trace m) =
       ctx_id ` (set_option (inputAudioContext m) \<union> set_option (outputAudioContext m))
   \<and> open_sessions (trace m) =
       (case activeSessionPromise m of Some (Fulfilled s) \<Rightarrow> {s} | _ \<Rightarrow> {})
   \<and> connected_processors (trace m) = set_option (processor m)
   \<and> unstopped_sources (trace m) \<supseteq> node_id ` set (sources m)
   \<and> (\<forall>i \<in> live_mics (trace m) \<union> open_contexts (trace m) \<union> open_sessions (trace m)
         \<union> connected_processors (trace m) \<union> unstopped_sources (trace m). i < fresh m)
   \<and> never_two_mics (trace m)"






section \<open>A running session and some messages, for the examples\<close>

definition granted :: start_env where
  "granted = \<lparr>close_throws = False, user_media = None, connects = True\<rparr>"

definition running :: manager where
  "running = snd (startSession granted initial)"

definition half_second :: audio_buffer where
  "half_second = \<lparr>numberOfChannels = 1, sampleRate = 24000, channelData = replicate 12000 0\<rparr>"

definition image_call :: function_call where
  "image_call = \<lparr>fc_id = ''call-1'', fc_name = ''generate_image'', fc_args = ''{targetName: frame}''\<rparr>"

definition location_call :: function_call where
  "location_call = \<lparr>fc_id = ''call-2'', fc_name = ''control_location'', fc_args = ''{}''\<rparr>"

definition tool_message :: server_message where
  "tool_message = \<lparr>toolCall = Some [image_call, location_call], inlineData = None, interrupted = False\<rparr>"

definition audio_message :: server_message where
  "audio_message = \<lparr>toolCall = None, inlineData = Some ''AAA='', interrupted = False\<rparr>"

definition image_message :: server_message where
  "image_message = \<lparr>toolCall = Some [image_call], inlineData = None, interrupted = False\<rparr>"

definition both_message :: server_message where
  "both_message = \<lparr>toolCall = Some [image_call], inlineData = Some ''AAA='', interrupted = False\<rparr>"

definition location_message :: server_message where
  "location_message = \<lparr>toolCall = Some [location_call], inlineData = None, interrupted = False\<rparr>"

definition idle :: event_loop where
  "idle = \<lparr>mgr = running, suspended = Map.empty, calls = Map.empty, next_id = 0\<rparr>"


definition denied :: start_env where
  "denied = \<lparr>close_throws = False, user_media = Some NotAllowedError, connects = True\<rparr>"

definition some_callback :: tool_callback where
  \<comment> \<open>succeeds on \<^verbatim>\<open>generate_image\<close>, throws on everything else\<close>
  "some_callback name args = (if name = ''generate_image'' then Inr ''ok'' else Inl ''denied'')"

section \<open>Auxiliary definitions for the proofs\<close>

text \<open>The six-bit groups that \<open>b64_encode\<close> turns into characters, without the padding.\<close>

fun sextets :: "nat list \<Rightarrow> nat list" where
  "sextets (a # b # c # bs) =
     (a div 4) # ((a mod 4) * 16 + b div 16) # ((b mod 16) * 4 + c div 64) # (c mod 64) # sextets bs"
| "sextets [a, b] = [a div 4, (a mod 4) * 16 + b div 16, (b mod 16) * 4]"
| "sextets [a] = [a div 4, (a mod 4) * 16]"
| "sextets [] = []"

text \<open>Nothing is held by the manager's fields.\<close>

definition released :: "manager \<Rightarrow> bool" where
  "released m \<longleftrightarrow> activeSessionPromise m = None \<and> inputAudioContext m = None
     \<and> outputAudioContext m = None \<and> mediaStream m = None \<and> processor m = None
     \<and> source m = None \<and> sources m = [] \<and> nextStartTime m = 0"

definition quiet :: "effect \<Rightarrow> bool" where
  \<comment> \<open>an effect that neither acquires nor releases anything\<close>
  "quiet e = (case e of ToolCalled n a \<Rightarrow> True | ToolResponseSent s r \<Rightarrow> True
     | ConsoleError x \<Rightarrow> True | ConsoleWarn \<Rightarrow> True | RealtimeInputSent s b \<Rightarrow> True | _ \<Rightarrow> False)"



text \<open>An event that is a message, a settling callback, the clock or the end of a source.\<close>

fun playback_event :: "event \<Rightarrow> bool" where
  "playback_event (Message message) = True"
| "playback_event (Settled h outcome) = True"
| "playback_event (ClockTick d) = True"
| "playback_event (SourceEnded i) = True"
| "playback_event e = False"



section \<open>Base64 round trip\<close>

lemma b64_index_char_all: "list_all (\<lambda>n. b64_index (b64_char n) = Some n) [0..<64]"
  by code_simp

lemma b64_index_char: "n < 64 \<Longrightarrow> b64_index (b64_char n) = Some n"
  using b64_index_char_all by (simp add: list_all_iff)

lemma b64_char_props_all:
  "list_all (\<lambda>n. b64_char n \<noteq> CHR ''='' \<and> \<not> ascii_whitespace (b64_char n)) [0..<64]"
  by code_simp

lemma b64_char_not_pad: "b64_char n \<noteq> CHR ''=''"
proof -
  have "n mod 64 < 64" by simp
  then have "b64_char (n mod 64) \<noteq> CHR ''=''"
    using b64_char_props_all by (simp add: list_all_iff)
  then show ?thesis by (simp add: b64_char_def)
qed

lemma b64_char_not_ws: "\<not> ascii_whitespace (b64_char n)"
proof -
  have "n mod 64 < 64" by simp
  then have "\<not> ascii_whitespace (b64_char (n mod 64))"
    using b64_char_props_all by (simp add: list_all_iff)
  then show ?thesis by (simp add: b64_char_def)
qed

lemma pad_not_ws: "\<not> ascii_whitespace (CHR ''='')"
  by (simp add: ascii_whitespace_def)

lemma filter_ws_b64_encode: "filter (\<lambda>c. \<not> ascii_whitespace c) (b64_encode bs) = b64_encode bs"
  by (induction bs rule: b64_encode.induct) (simp_all add: b64_char_not_ws pad_not_ws)

lemma length_b64_encode: "length (b64_encode bs) mod 4 = 0"
  by (induction bs rule: b64_encode.induct) simp_all

lemma length_sextets: "length (sextets bs) mod 4 \<noteq> Suc 0"
  by (induction bs rule: sextets.induct) simp_all

lemma strip_padding_append:
  assumes "2 \<le> length r"
  shows "strip_padding (p @ r) = p @ strip_padding r"
proof -
  from assms obtain r' y z where r: "r = r' @ [y, z]"
  proof (cases r rule: rev_cases)
    case Nil
    with assms show ?thesis by simp
  next
    case (snoc r1 z)
    with assms show ?thesis
      using that by (cases r1 rule: rev_cases) simp_all
  qed
  show ?thesis
    unfolding r strip_padding_def Let_def
    by (simp add: butlast_append)
qed

lemma strip_padding_Cons4:
  "2 \<le> length r \<Longrightarrow> strip_padding (a # b # c # d # r) = a # b # c # d # strip_padding r"
  using strip_padding_append [of r "[a, b, c, d]"] by simp

lemma strip_padding_b64_encode: "strip_padding (b64_encode bs) = map b64_char (sextets bs)"
proof (induction bs rule: b64_encode.induct)
  case (1 a b c bs)
  show ?case
  proof (cases "b64_encode bs = []")
    case True
    then have "bs = []" by (cases bs rule: b64_encode.cases) simp_all
    then show ?thesis by (simp add: strip_padding_def b64_char_not_pad)
  next
    case False
    then have "2 \<le> length (b64_encode bs)"
      by (cases bs rule: b64_encode.cases) simp_all
    with 1 show ?thesis by (simp add: strip_padding_Cons4)
  qed
qed (simp_all add: strip_padding_def b64_char_not_pad)

lemma sextets_bound: "list_all (\<lambda>b. b < 256) bs \<Longrightarrow> list_all (\<lambda>s. s < 64) (sextets bs)"
  by (induction bs rule: sextets.induct) (auto)

lemma those_b64_index: "list_all (\<lambda>s. s < 64) ss \<Longrightarrow> those (map (b64_index \<circ> b64_char) ss) = Some ss"
  by (induction ss) (simp_all add: b64_index_char)

lemma b64_decode_sextets: "list_all (\<lambda>b. b < 256) bs \<Longrightarrow> b64_decode (sextets bs) = bs"
  by (induction bs rule: sextets.induct) (auto)

lemma atob_b64_encode: "list_all (\<lambda>b. b < 256) bs \<Longrightarrow> atob (b64_encode bs) = Inr bs"
  by (simp add: atob_def filter_ws_b64_encode length_b64_encode strip_padding_b64_encode
      length_sextets those_b64_index sextets_bound b64_decode_sextets)

section \<open>Properties of the codec\<close>

lemma word16_split: "ucast (ucast w :: 8 word) OR push_bit 8 (ucast (ucast (drop_bit 8 w) :: 8 word)) = (w :: 16 word)"
  by (rule bit_word_eqI) (auto simp: bit_simps)

lemma bytes_int16_bytes: "bytes_int16 (map of_nat (map unat (int16_bytes ws))) = ws"
  by (induction ws) (simp_all add: word16_split)

lemma length_int16_bytes: "length (int16_bytes ws) = 2 * length ws"
  by (induction ws) simp_all

lemma length_bytes_int16: "length (bytes_int16 bs) = length bs div 2"
  by (induction bs rule: bytes_int16.induct) simp_all

lemma unat_byte_bound: "list_all (\<lambda>b. b < 256) (map unat (bs :: 8 word list))"
proof -
  have "unat b < 256" for b :: "8 word"
    using unsigned_less [of b, where 'a = nat] by simp
  then show ?thesis by (simp add: list_all_iff)
qed

lemma btoa_bytes: "btoa (map unat (bs :: 8 word list)) = Inr (b64_encode (map unat bs))"
proof -
  have "unat b < 256" for b :: "8 word"
    using unsigned_less [of b, where 'a = nat] by simp
  then have "\<not> list_ex (\<lambda>c. 255 < c) (map unat bs)"
    by (auto simp: list_ex_iff not_less less_Suc_eq_le [symmetric])
  then show ?thesis by (simp add: btoa_def)
qed

lemma sint_to_int16: "- 32768 \<le> trunc r \<Longrightarrow> trunc r \<le> 32767 \<Longrightarrow> sint (to_int16 r) = trunc r"
  by (simp add: to_int16_def sint_sbintrunc' signed_take_bit_int_eq_self)

lemma clamp_sample_range: "- 1 \<le> clamp_sample x \<and> clamp_sample x \<le> 1"
  by (simp add: clamp_sample_def)

lemma clamp_sample_cases:
  "clamp_sample x = (if x \<le> - 1 then - 1 else if 1 \<le> x then 1 else x)"
  by (simp add: clamp_sample_def max_def min_def)

lemma trunc_neg_scaled:
  assumes "- 1 \<le> s" "s < 0"
  shows "- 32768 \<le> trunc (s * 32768)" "trunc (s * 32768) \<le> 0"
proof -
  have "- 32768 \<le> s * 32768" using assms by simp
  then have "(- 32768 :: int) \<le> \<lceil>s * 32768\<rceil>" by (simp add: le_ceiling_iff)
  moreover have "\<lceil>s * 32768\<rceil> \<le> 0" using assms by (simp add: ceiling_le_iff)
  ultimately show "- 32768 \<le> trunc (s * 32768)" "trunc (s * 32768) \<le> 0"
    using assms by (simp_all add: trunc_def)
qed

lemma trunc_pos_scaled:
  assumes "0 \<le> s" "s \<le> 1"
  shows "0 \<le> trunc (s * 32767)" "trunc (s * 32767) \<le> 32767"
proof -
  have "\<not> s * 32767 < 0" using assms by simp
  moreover have "s * 32767 \<le> 32767" using assms by simp
  then have "\<lfloor>s * 32767\<rfloor> \<le> (32767 :: int)" by (simp add: floor_le_iff)
  moreover have "0 \<le> \<lfloor>s * 32767\<rfloor>" using assms by simp
  ultimately show "0 \<le> trunc (s * 32767)" "trunc (s * 32767) \<le> 32767"
    by (simp_all add: trunc_def)
qed

lemma sint_pcm_sample_clamped:
  "sint (pcm_sample x) =
     (let s = clamp_sample x in if s < 0 then \<lceil>s * 32768\<rceil> else \<lfloor>s * 32767\<rfloor>)"
proof (cases "clamp_sample x < 0")
  case True
  with clamp_sample_range [of x] trunc_neg_scaled [of "clamp_sample x"]
  show ?thesis by (simp add: pcm_sample_def Let_def sint_to_int16) (simp add: trunc_def)
next
  case False
  with clamp_sample_range [of x] trunc_pos_scaled [of "clamp_sample x"]
  show ?thesis by (simp add: pcm_sample_def Let_def sint_to_int16) (simp add: trunc_def)
qed

lemma sint_pcm_sample:
  "sint (pcm_sample x) =
     (if x \<le> - 1 then - 32768 else if x < 0 then \<lceil>x * 32768\<rceil>
      else if x < 1 then \<lfloor>x * 32767\<rfloor> else 32767)"
  by (simp add: sint_pcm_sample_clamped clamp_sample_cases Let_def)

lemma createPcmBlob_eq:
  "createPcmBlob samples =
     Inr \<lparr>data = b64_encode (map unat (int16_bytes (map pcm_sample samples))),
          mimeType = ''audio/pcm;rate=16000''\<rparr>"
  by (simp add: createPcmBlob_def Let_def btoa_bytes)

lemma decode_b64_encode_bytes:
  "decodeAudioData (b64_encode (map unat (int16_bytes ws))) =
     (if ws = [] then Inl NotSupportedError
      else Inr \<lparr>numberOfChannels = 1, sampleRate = 24000,
                channelData = map (\<lambda>w. of_int (sint w) / 32768) ws\<rparr>)"
  by (simp add: decodeAudioData_def atob_b64_encode unat_byte_bound new_Int16Array_def
      length_int16_bytes bytes_int16_bytes createBuffer_def Let_def del: map_map)

lemma quant_error_neg:
  assumes "- 1 \<le> x" "x < 0"
  shows "x \<le> of_int (sint (pcm_sample x)) / 32768" "of_int (sint (pcm_sample x)) / 32768 - x < 1 / 32768"
proof -
  have c: "sint (pcm_sample x) = \<lceil>x * 32768\<rceil>"
    using assms by (auto simp: sint_pcm_sample)
  have "x * 32768 \<le> of_int \<lceil>x * 32768\<rceil>" by (rule le_of_int_ceiling)
  then show "x \<le> of_int (sint (pcm_sample x)) / 32768"
    by (simp add: c pos_le_divide_eq)
  have "of_int \<lceil>x * 32768\<rceil> < x * 32768 + 1" by linarith
  then show "of_int (sint (pcm_sample x)) / 32768 - x < 1 / 32768"
    by (simp add: c field_simps)
qed

lemma quant_error_pos:
  assumes "0 \<le> x" "x \<le> 1"
  shows "of_int (sint (pcm_sample x)) / 32768 \<le> x" "x - of_int (sint (pcm_sample x)) / 32768 < 2 / 32768"
proof -
  have c: "sint (pcm_sample x) = \<lfloor>x * 32767\<rfloor>"
    using assms by (auto simp: sint_pcm_sample)
  have "of_int \<lfloor>x * 32767\<rfloor> \<le> x * 32767" by (rule of_int_floor_le)
  also have "\<dots> \<le> x * 32768" using assms by simp
  finally show "of_int (sint (pcm_sample x)) / 32768 \<le> x"
    by (simp add: c pos_divide_le_eq)
  have "x * 32767 < of_int \<lfloor>x * 32767\<rfloor> + 1" by linarith
  with assms show "x - of_int (sint (pcm_sample x)) / 32768 < 2 / 32768"
    by (simp add: c field_simps)
qed

text \<open>Byte order: the low byte of every 16-bit element comes first.\<close>

lemma lo_byte: "unat (ucast (w :: 16 word) :: 8 word) = unat w mod 256"
  by (simp add: unsigned_ucast_eq take_bit_eq_mod)

lemma hi_byte: "unat (ucast (drop_bit 8 (w :: 16 word)) :: 8 word) = unat w div 256"
proof -
  have "unat w < 65536" using unsigned_less [of w, where 'a = nat] by simp
  then have "unat w div 256 < 256" by simp
  moreover have "unat (drop_bit 8 w) = unat w div 256"
    by (simp add: drop_bit_eq_div unat_div)
  moreover have "unat (ucast (drop_bit 8 w) :: 8 word) = unat (drop_bit 8 w) mod 256"
    by (simp only: unsigned_ucast_eq take_bit_eq_mod) simp
  ultimately show ?thesis by simp
qed

lemma int16_bytes_little_endian:
  "int16_bytes [w] = [lo, hi] \<Longrightarrow> unat w = unat lo + 256 * unat hi"
  using lo_byte [of w] hi_byte [of w] by auto

lemma nth_int16_bytes:
  "i < length ws \<Longrightarrow>
     int16_bytes ws ! (2 * i) = ucast (ws ! i) \<and> int16_bytes ws ! (2 * i + 1) = ucast (drop_bit 8 (ws ! i))"
proof (induction ws arbitrary: i)
  case Nil
  then show ?case by simp
next
  case (Cons w ws)
  show ?case
  proof (cases i)
    case 0
    then show ?thesis by simp
  next
    case (Suc j)
    with Cons.prems have "j < length ws" by simp
    from Cons.IH [OF this] Suc show ?thesis by simp
  qed
qed

lemma little_endian_pair:
  assumes "i < length ws"
  shows "unat (ws ! i) = unat (int16_bytes ws ! (2 * i)) + 256 * unat (int16_bytes ws ! (2 * i + 1))"
  using nth_int16_bytes [OF assms] lo_byte [of "ws ! i"] hi_byte [of "ws ! i"] by simp

lemma bytes_int16_little_endian:
  "unat (ucast lo OR push_bit 8 (ucast hi) :: 16 word) = unat (lo :: 8 word) + 256 * unat (hi :: 8 word)"
proof -
  let ?w = "ucast lo OR push_bit 8 (ucast hi) :: 16 word"
  have l: "(ucast ?w :: 8 word) = lo"
    by (rule bit_word_eqI) (auto simp: bit_simps)
  have h: "(ucast (drop_bit 8 ?w) :: 8 word) = hi"
    by (rule bit_word_eqI) (auto simp: bit_simps dest: bit_imp_le_length)
  have "unat ?w = unat ?w mod 256 + 256 * (unat ?w div 256)" by simp
  also have "\<dots> = unat lo + 256 * unat hi"
    using lo_byte [of ?w] hi_byte [of ?w] by (simp only: l h)
  finally show ?thesis .
qed

lemma decodeAudioData_Inr:
  assumes "decodeAudioData base64 = Inr buf"
  shows "\<exists>bytes. atob base64 = Inr bytes \<and> even (length bytes) \<and> bytes \<noteq> []
           \<and> buf = \<lparr>numberOfChannels = 1, sampleRate = 24000,
                     channelData = map (\<lambda>w. of_int (sint w) / 32768) (bytes_int16 (map of_nat bytes))\<rparr>"
  using assms
  by (auto simp: decodeAudioData_def new_Int16Array_def createBuffer_def Let_def length_bytes_int16
      split: sum.splits if_splits)

lemma decode_encode_empty:
  "createPcmBlob [] = Inr \<lparr>data = [], mimeType = ''audio/pcm;rate=16000''\<rparr>
   \<and> decodeAudioData [] = Inl NotSupportedError"
  by code_simp

lemma abs_error_below:
  fixes x y e :: rat
  assumes "x \<le> y" "y - x < e" "y \<le> 0"
  shows "\<bar>y - x\<bar> < e" "\<bar>y\<bar> \<le> \<bar>x\<bar>"
  using assms by linarith+

lemma abs_error_above:
  fixes x y e :: rat
  assumes "y \<le> x" "x - y < e" "0 \<le> y"
  shows "\<bar>y - x\<bar> < e" "\<bar>y\<bar> \<le> \<bar>x\<bar>"
  using assms by linarith+

section \<open>Claims about the codec\<close>

text \<open>
  C5. \<^verbatim>\<open>createPcmBlob\<close> never throws. It saturates each sample to \<open>[-1, 1]\<close>: a sample
  at or below \<open>-1\<close> becomes \<open>-32768\<close>, one at or above \<open>1\<close> becomes \<open>32767\<close>; a
  negative sample in range is scaled by \<open>32768\<close> and a non-negative one by \<open>32767\<close>, the
  fraction being cut off towards zero, which gives a signed 16-bit integer. Each integer is
  stored low byte first, the bytes are wrapped in base64 (which \<^verbatim>\<open>atob\<close> decodes back to
  exactly these bytes) and the result is tagged \<^verbatim>\<open>audio/pcm;rate=16000\<close>.
\<close>

theorem createPcmBlob_encoding:
  "createPcmBlob samples =
     Inr \<lparr>data = b64_encode (map unat (int16_bytes (map pcm_sample samples))),
          mimeType = ''audio/pcm;rate=16000''\<rparr>
   \<and> atob (b64_encode (map unat (int16_bytes (map pcm_sample samples))))
       = Inr (map unat (int16_bytes (map pcm_sample samples)))
   \<and> (\<forall>i < length samples.
         sint (pcm_sample (samples ! i)) =
           (if samples ! i \<le> - 1 then - 32768
            else if samples ! i < 0 then \<lceil>samples ! i * 32768\<rceil>
            else if samples ! i < 1 then \<lfloor>samples ! i * 32767\<rfloor>
            else 32767)
         \<and> unat (pcm_sample (samples ! i)) =
             unat (int16_bytes (map pcm_sample samples) ! (2 * i))
             + 256 * unat (int16_bytes (map pcm_sample samples) ! (2 * i + 1)))"
proof (intro conjI allI impI)
  show "createPcmBlob samples =
     Inr \<lparr>data = b64_encode (map unat (int16_bytes (map pcm_sample samples))),
          mimeType = ''audio/pcm;rate=16000''\<rparr>"
    by (rule createPcmBlob_eq)
  show "atob (b64_encode (map unat (int16_bytes (map pcm_sample samples))))
       = Inr (map unat (int16_bytes (map pcm_sample samples)))"
    by (rule atob_b64_encode) (rule unat_byte_bound)
next
  fix i assume "i < length samples"
  show "sint (pcm_sample (samples ! i)) =
           (if samples ! i \<le> - 1 then - 32768
            else if samples ! i < 0 then \<lceil>samples ! i * 32768\<rceil>
            else if samples ! i < 1 then \<lfloor>samples ! i * 32767\<rfloor>
            else 32767)"
    by (rule sint_pcm_sample)
  from \<open>i < length samples\<close>
  show "unat (pcm_sample (samples ! i)) =
             unat (int16_bytes (map pcm_sample samples) ! (2 * i))
             + 256 * unat (int16_bytes (map pcm_sample samples) ! (2 * i + 1))"
    using little_endian_pair [of i "map pcm_sample samples"] by simp
qed

theorem createPcmBlob_encoding_witness:
  "createPcmBlob [2, - 3] = Inr \<lparr>data = ''/38AgA=='', mimeType = ''audio/pcm;rate=16000''\<rparr>
   \<and> atob ''/38AgA=='' = Inr [255, 127, 0, 128]
   \<and> sint (pcm_sample 2) = 32767 \<and> sint (pcm_sample (- 3)) = - 32768"
proof -
  have e: "b64_encode [255, 127, 0, 128] = ''/38AgA==''"
    by code_simp
  have b: "map unat (int16_bytes (map pcm_sample [2, - 3])) = [255, 127, 0, 128]"
    by code_simp
  note t = createPcmBlob_encoding [of "[2, - 3]", unfolded b e]
  from t have "createPcmBlob [2, - 3] = Inr \<lparr>data = ''/38AgA=='', mimeType = ''audio/pcm;rate=16000''\<rparr>"
    by (rule conjunct1)
  moreover from t have "atob ''/38AgA=='' = Inr [255, 127, 0, 128]"
    by (rule conjunct2 [THEN conjunct1])
  moreover note q = t [THEN conjunct2, THEN conjunct2, rule_format, THEN conjunct1]
  from q [of 0] have "sint (pcm_sample 2) = 32767" by simp
  moreover from q [of 1] have "sint (pcm_sample (- 3)) = - 32768" by simp
  ultimately show ?thesis by (intro conjI)
qed

text \<open>
  C4, as amended. For a non-empty sequence of samples in \<open>[-1, 1]\<close>, decoding the encoded
  chunk succeeds and gives as many samples as went in; each decoded sample is no larger in
  magnitude than the original and differs from it by less than \<open>2 / 32768\<close>, and by less
  than \<open>1 / 32768\<close> when the original is negative. (Non-negative samples are scaled by
  \<open>32767\<close> on the way out and divided by \<open>32768\<close> on the way back.)
\<close>

theorem codec_round_trip:
  assumes "samples \<noteq> []" and "\<forall>x \<in> set samples. - 1 \<le> x \<and> x \<le> 1"
  shows "\<exists>blob buf. createPcmBlob samples = Inr blob \<and> decodeAudioData (data blob) = Inr buf
           \<and> length (channelData buf) = length samples
           \<and> (\<forall>i < length samples.
                 \<bar>channelData buf ! i - samples ! i\<bar> < 2 / 32768
                 \<and> \<bar>channelData buf ! i\<bar> \<le> \<bar>samples ! i\<bar>
                 \<and> (samples ! i < 0 \<longrightarrow> \<bar>channelData buf ! i - samples ! i\<bar> < 1 / 32768))"
proof -
  let ?blob = "\<lparr>data = b64_encode (map unat (int16_bytes (map pcm_sample samples))),
                mimeType = ''audio/pcm;rate=16000''\<rparr>"
  let ?buf = "\<lparr>numberOfChannels = 1, sampleRate = 24000,
               channelData = map (\<lambda>w. of_int (sint w) / 32768) (map pcm_sample samples)\<rparr>"
  have "createPcmBlob samples = Inr ?blob" by (rule createPcmBlob_eq)
  moreover have "decodeAudioData (data ?blob) = Inr ?buf"
    using assms(1) by (simp add: decode_b64_encode_bytes del: map_map)
  moreover have "length (channelData ?buf) = length samples" by simp
  moreover have "\<bar>channelData ?buf ! i - samples ! i\<bar> < 2 / 32768
                 \<and> \<bar>channelData ?buf ! i\<bar> \<le> \<bar>samples ! i\<bar>
                 \<and> (samples ! i < 0 \<longrightarrow> \<bar>channelData ?buf ! i - samples ! i\<bar> < 1 / 32768)"
    if i: "i < length samples" for i
  proof -
    let ?x = "samples ! i"
    let ?y = "rat_of_int (sint (pcm_sample ?x)) / 32768"
    have y: "channelData ?buf ! i = ?y" using i by simp
    from i assms(2) have r: "- 1 \<le> ?x" "?x \<le> 1" by simp_all
    show ?thesis
    proof (cases "?x < 0")
      case True
      from True have "sint (pcm_sample ?x) \<le> 0"
        by (simp add: sint_pcm_sample ceiling_le_iff)
      then have "rat_of_int (sint (pcm_sample ?x)) \<le> 0" by (simp only: of_int_le_0_iff)
      then have "?y \<le> 0" by (rule divide_nonpos_pos) simp
      from abs_error_below [OF quant_error_neg [OF r(1) True] this]
      have "\<bar>?y - ?x\<bar> < 1 / 32768" "\<bar>?y\<bar> \<le> \<bar>?x\<bar>" .
      moreover from this(1) have "\<bar>?y - ?x\<bar> < 2 / 32768" by linarith
      ultimately show ?thesis unfolding y by blast
    next
      case False
      then have "0 \<le> ?x" by simp
      from False have "0 \<le> sint (pcm_sample ?x)"
        by (simp add: sint_pcm_sample)
      then have "0 \<le> rat_of_int (sint (pcm_sample ?x))" by (simp only: of_int_0_le_iff)
      then have "0 \<le> ?y" by (rule divide_nonneg_pos) simp
      from abs_error_above [OF quant_error_pos [OF \<open>0 \<le> ?x\<close> r(2)] this]
      have "\<bar>?y - ?x\<bar> < 2 / 32768" "\<bar>?y\<bar> \<le> \<bar>?x\<bar>" .
      with False show ?thesis unfolding y by blast
    qed
  qed
  ultimately show ?thesis by blast
qed

text \<open>
  The bound \<open>1 / 32768\<close> fails at the sample \<open>65535 / 65536\<close>, which is a 32-bit float:
  it is encoded as \<open>32766\<close> and comes back as \<open>16383 / 16384\<close>, off by \<open>1.5 / 32768\<close>.
\<close>

theorem codec_round_trip_counterexample:
  "- 1 \<le> (65535 / 65536 :: rat) \<and> (65535 / 65536 :: rat) \<le> 1
   \<and> createPcmBlob [65535 / 65536] = Inr \<lparr>data = ''/n8='', mimeType = ''audio/pcm;rate=16000''\<rparr>
   \<and> decodeAudioData ''/n8='' =
        Inr \<lparr>numberOfChannels = 1, sampleRate = 24000, channelData = [16383 / 16384]\<rparr>
   \<and> \<not> \<bar>16383 / 16384 - 65535 / 65536\<bar> \<le> (1 / 32768 :: rat)"
proof -
  have "createPcmBlob [65535 / 65536] = Inr \<lparr>data = ''/n8='', mimeType = ''audio/pcm;rate=16000''\<rparr>"
    by code_simp
  moreover have "decodeAudioData ''/n8='' =
        Inr \<lparr>numberOfChannels = 1, sampleRate = 24000, channelData = [16383 / 16384]\<rparr>"
    by code_simp
  ultimately show ?thesis by simp
qed

theorem codec_round_trip_witness:
  "\<exists>blob buf. createPcmBlob [1 / 2, - 1 / 3] = Inr blob \<and> decodeAudioData (data blob) = Inr buf
     \<and> length (channelData buf) = 2
     \<and> \<bar>channelData buf ! 0 - 1 / 2\<bar> < 2 / 32768
     \<and> \<bar>channelData buf ! 1 - (- 1 / 3)\<bar> < 1 / 32768"
proof -
  have "[1 / 2, - 1 / 3 :: rat] \<noteq> []" by simp
  moreover have "\<forall>x \<in> set [1 / 2, - 1 / 3 :: rat]. - 1 \<le> x \<and> x \<le> 1" by simp
  ultimately obtain blob buf where
    a: "createPcmBlob [1 / 2, - 1 / 3] = Inr blob" "decodeAudioData (data blob) = Inr buf"
      "length (channelData buf) = length [1 / 2, - 1 / 3 :: rat]"
    and q: "\<forall>i < length [1 / 2, - 1 / 3 :: rat].
                 \<bar>channelData buf ! i - [1 / 2, - 1 / 3] ! i\<bar> < 2 / 32768
                 \<and> \<bar>channelData buf ! i\<bar> \<le> \<bar>[1 / 2, - 1 / 3] ! i\<bar>
                 \<and> ([1 / 2, - 1 / 3 :: rat] ! i < 0 \<longrightarrow> \<bar>channelData buf ! i - [1 / 2, - 1 / 3] ! i\<bar> < 1 / 32768)"
    using codec_round_trip [of "[1 / 2, - 1 / 3]"] by blast
  from q [rule_format, of 0] have "\<bar>channelData buf ! 0 - 1 / 2\<bar> < 2 / 32768" by simp
  moreover from q [rule_format, of 1] have "\<bar>channelData buf ! 1 - (- 1 / 3)\<bar> < 1 / 32768" by simp
  ultimately show ?thesis using a by auto
qed

section \<open>Properties of playback scheduling\<close>

lemma starts_append: "starts (xs @ ys) = starts xs @ starts ys"
  by (induction xs rule: starts.induct) simp_all

lemma tool_responses_sent_append:
  "tool_responses_sent (xs @ ys) = tool_responses_sent xs @ tool_responses_sent ys"
  by (induction xs rule: tool_responses_sent.induct) simp_all

lemma starts_stops: "starts (map (\<lambda>s. SourceStopped (f s)) xs) = []"
  by (induction xs) simp_all

lemma tool_responses_sent_stops: "tool_responses_sent (map (\<lambda>s. SourceStopped (f s)) xs) = []"
  by (induction xs) simp_all

lemma tool_responses_sent_calls: "tool_responses_sent (map (\<lambda>c. ToolCalled (f c) (g c)) xs) = []"
  by (induction xs) simp_all

lemma duration_nonneg: "0 \<le> duration b"
  by (simp add: duration_def)

lemma schedulePlayback_fields:
  "nextStartTime (schedulePlayback b ctx m) = max (nextStartTime m) (currentTime ctx) + duration b"
  "trace (schedulePlayback b ctx m) =
     trace m @ [SourceStarted (fresh m) (max (nextStartTime m) (currentTime ctx)) (duration b)]"
  "sources (schedulePlayback b ctx m) = sources m @ [\<lparr>node_id = fresh m, buffer = b\<rparr>]"
  "outputAudioContext (schedulePlayback b ctx m) = outputAudioContext m"
  by (simp_all add: schedulePlayback_def Let_def)

lemma tick_fields:
  "nextStartTime (tick d m) = nextStartTime m"
  "trace (tick d m) = trace m"
  "sources (tick d m) = sources m"
  "outputAudioContext (tick d m) = map_option (\<lambda>c. c\<lparr>currentTime := currentTime c + d\<rparr>) (outputAudioContext m)"
  by (simp_all add: tick_def)

lemma starts_schedule_all:
  assumes "outputAudioContext m = Some ctx"
  shows "starts (trace (schedule_all steps m)) =
           starts (trace m) @ expected_starts (nextStartTime m) (currentTime ctx) steps"
  using assms
proof (induction steps arbitrary: m ctx)
  case Nil
  then show ?case by simp
next
  case (Cons step steps)
  obtain d b where step: "step = (d, b)" by (cases step)
  let ?ctx = "ctx\<lparr>currentTime := currentTime ctx + d\<rparr>"
  let ?m = "schedulePlayback b ?ctx (tick d m)"
  have "outputAudioContext ?m = Some ?ctx"
    using Cons.prems by (simp add: schedulePlayback_fields tick_fields)
  from Cons.IH [OF this] Cons.prems show ?case
    by (simp add: step tick_fields schedulePlayback_fields starts_append Let_def)
qed

lemma no_overlap_expected: "no_overlap (expected_starts cursor clock steps)"
proof (induction steps arbitrary: cursor clock)
  case Nil
  then show ?case by simp
next
  case (Cons step steps)
  obtain d b where step: "step = (d, b)" by (cases step)
  show ?case
  proof (cases steps)
    case Nil
    then show ?thesis by (simp add: step Let_def)
  next
    case (Cons step' steps')
    obtain d' b' where step': "step' = (d', b')" by (cases step')
    from Cons.IH [of "max cursor (clock + d) + duration b" "clock + d"]
    show ?thesis by (simp add: step Cons step' Let_def)
  qed
qed

lemma back_to_back_expected:
  "back_to_back (expected_starts cursor clock steps) \<longleftrightarrow> on_time cursor clock steps"
proof (induction steps arbitrary: cursor clock)
  case Nil
  then show ?case by simp
next
  case (Cons step steps)
  obtain d b where step: "step = (d, b)" by (cases step)
  show ?case
  proof (cases steps)
    case Nil
    then show ?thesis by (simp add: step Let_def)
  next
    case (Cons step' steps')
    obtain d' b' where step': "step' = (d', b')" by (cases step')
    from Cons.IH [of "max cursor (clock + d) + duration b" "clock + d"]
    show ?thesis by (auto simp add: step Cons step' Let_def max_def)
  qed
qed

lemma first_expected:
  "expected_starts cursor clock ((d, b) # rest) \<noteq> []
   \<and> clock + d \<le> fst (hd (expected_starts cursor clock ((d, b) # rest)))
   \<and> cursor \<le> fst (hd (expected_starts cursor clock ((d, b) # rest)))"
  by (simp add: Let_def)

lemma running_eq:
  "running = \<lparr>activeSessionPromise = Some (Fulfilled 4),
     inputAudioContext = Some \<lparr>ctx_id = 0, ctx_sampleRate = 16000, currentTime = 0\<rparr>,
     outputAudioContext = Some \<lparr>ctx_id = 1, ctx_sampleRate = 24000, currentTime = 0\<rparr>,
     mediaStream = Some 3, processor = None, source = None, nextStartTime = 0, sources = [],
     outputNode = Some 2,
     trace = [ContextCreated 0 16000, ContextCreated 1 24000, MicAcquired 3, SessionConnected 4],
     fresh = 5\<rparr>"
  by (simp add: running_def granted_def startSession_def stopSession_def cleanup_def
      stopAudioPlayback_def initial_def emit_def Let_def)

lemma duration_half_second: "duration half_second = 1 / 2"
  by (simp add: duration_def half_second_def)

section \<open>Properties of message handling\<close>

lemma emit_fields:
  "trace (emit es m) = trace m @ es"
  "sources (emit es m) = sources m"
  "nextStartTime (emit es m) = nextStartTime m"
  "activeSessionPromise (emit es m) = activeSessionPromise m"
  "outputAudioContext (emit es m) = outputAudioContext m"
  "outputNode (emit es m) = outputNode m"
  "inputAudioContext (emit es m) = inputAudioContext m"
  "mediaStream (emit es m) = mediaStream m"
  "processor (emit es m) = processor m"
  "source (emit es m) = source m"
  "fresh (emit es m) = fresh m"
  by (simp_all add: emit_def)

lemma emit_Nil: "emit [] m = m"
  by (simp add: emit_def)

lemma responses_handle_audio:
  "tool_responses_sent (trace (handle_audio b ctx m)) = tool_responses_sent (trace m)"
  by (simp add: handle_audio_def emit_fields schedulePlayback_fields tool_responses_sent_append
      split: sum.splits)

lemma responses_handle_interruption:
  "tool_responses_sent (trace (handle_interruption message m)) = tool_responses_sent (trace m)"
  by (simp add: handle_interruption_def stopAudioPlayback_def tool_responses_sent_append
      tool_responses_sent_stops)

lemma session_handle_interruption:
  "activeSessionPromise (handle_interruption message m) = activeSessionPromise m"
  by (simp add: handle_interruption_def stopAudioPlayback_def)

lemma responses_send:
  "tool_responses_sent (send_responses rs m) =
     (case activeSessionPromise m of Some (Fulfilled s) \<Rightarrow> [(s, rs)] | _ \<Rightarrow> [])"
  by (simp add: send_responses_def split: option.splits session_promise.splits)

lemma responses_finish_message:
  "tool_responses_sent (trace (finish_message responses message m)) =
     tool_responses_sent (trace m) @
       (case responses of
          None \<Rightarrow> []
        | Some rs \<Rightarrow> (case activeSessionPromise m of Some (Fulfilled s) \<Rightarrow> [(s, rs)] | _ \<Rightarrow> []))"
  by (cases responses)
     (simp_all add: finish_message_def Let_def responses_handle_audio responses_handle_interruption
       emit_fields tool_responses_sent_append responses_send emit_Nil
       split: option.splits list.splits)

lemma responses_handleMessage:
  "tool_responses_sent (trace (handleMessage message onToolCall m)) =
     tool_responses_sent (trace m) @
       (case (toolCall message, onToolCall, activeSessionPromise m) of
          (Some functionCalls, Some callback, Some (Fulfilled s)) \<Rightarrow>
             [(s, map (\<lambda>fc. tool_response fc (callback (fc_name fc) (fc_args fc))) functionCalls)]
        | _ \<Rightarrow> [])"
  by (simp add: handleMessage_def responses_finish_message emit_fields tool_responses_sent_append
      tool_responses_sent_calls split: option.splits session_promise.splits)


text \<open>A message that carries a decodable chunk and nothing else schedules its buffer.\<close>

lemma handleMessage_audio:
  assumes "decodeAudioData (c # cs) = Inr audioBuffer"
    and "outputAudioContext m = Some ctx" and "outputNode m = Some node"
  shows "handleMessage \<lparr>toolCall = None, inlineData = Some (c # cs), interrupted = False\<rparr> onToolCall m
           = schedulePlayback audioBuffer ctx m"
  using assms
  by (simp add: handleMessage_def finish_message_def handle_audio_def handle_interruption_def
      emit_Nil)

lemma tool_response_thrown:
  "tool_response fc (map_sum (\<lambda>e. other) id outcome) = tool_response fc outcome"
  by (cases outcome) (simp_all add: tool_response_def)

lemma handleMessage_thrown_value:
  "handleMessage message (Some (\<lambda>name args. map_sum (\<lambda>e. other) id (callback name args))) m =
   handleMessage message (Some callback) m"
  by (simp add: handleMessage_def tool_response_thrown split: option.splits)

lemma decodeAudioData_fails:
  assumes "atob base64 = Inl err \<or> (\<exists>bytes. atob base64 = Inr bytes \<and> odd (length bytes))"
  shows "decodeAudioData base64 = Inl InvalidCharacterError \<or> decodeAudioData base64 = Inl RangeError"
proof -
  have "atob base64 = Inl e \<Longrightarrow> e = InvalidCharacterError" for e
    by (auto simp: atob_def Let_def split: if_splits option.splits)
  with assms show ?thesis
    by (auto simp: decodeAudioData_def new_Int16Array_def odd_iff_mod_2_eq_one)
qed

lemma finish_message_failed_chunk:
  assumes "decodeAudioData base64 = Inl e" and "inlineData message = Some base64"
  shows "(finish_message responses message m)\<lparr>trace := t\<rparr> =
         (finish_message responses (message\<lparr>inlineData := None\<rparr>) m)\<lparr>trace := t\<rparr>"
    and "starts (trace (finish_message responses message m)) =
         starts (trace (finish_message responses (message\<lparr>inlineData := None\<rparr>) m))"
    and "tool_responses_sent (trace (finish_message responses message m)) =
         tool_responses_sent (trace (finish_message responses (message\<lparr>inlineData := None\<rparr>) m))"
  using assms
  by (auto simp: finish_message_def handle_audio_def handle_interruption_def stopAudioPlayback_def
      emit_def Let_def starts_append starts_stops tool_responses_sent_append
      tool_responses_sent_stops split: option.splits list.splits)

lemma atob_AAAA: "atob ''AAAA'' = Inr [0, 0, 0]"
  by code_simp

section \<open>Properties of overlapping handlers\<close>

lemma run_Nil: "run hc [] el = el"
  by (simp add: run_def)

lemma run_Cons: "run hc (e # es) el = run hc es (step hc el e)"
  by (simp add: run_def)






lemma trace_stopAudioPlayback: "\<exists>es. trace (stopAudioPlayback m) = trace m @ es"
  by (simp add: stopAudioPlayback_def)




lemma trace_cleanup: "\<exists>es. trace (cleanup m) = trace m @ es"
  by (simp add: cleanup_def stopAudioPlayback_def emit_def Let_def split: option.splits)

lemma trace_stopSession: "\<exists>es. trace (stopSession c m) = trace m @ es"
proof -
  obtain es where "trace (stopSession c m) =
     trace (case activeSessionPromise m of
          None \<Rightarrow> m
        | Some Rejected \<Rightarrow> emit [ConsoleWarn] m
        | Some (Fulfilled session) \<Rightarrow>
            emit (SessionClosed session # (if c then [ConsoleWarn] else [])) m) @ es"
    unfolding stopSession_def using trace_cleanup by blast
  then show ?thesis
    by (auto simp: emit_fields split: option.splits session_promise.splits)
qed



















lemmas loop_defs = run_def on_message_def on_settled_def on_start_def on_stop_def
  on_session_awaited_def on_media_settled_def idle_def

lemmas manager_defs = finish_message_def handle_audio_def handle_interruption_def
  schedulePlayback_def stopAudioPlayback_def send_responses_def tool_response_def emit_def
  cleanup_def closing_def create_contexts_def media_settled_def onclose_def Let_def

lemma decode_AAA: "decodeAudioData ''AAA='' =
        Inr \<lparr>numberOfChannels = 1, sampleRate = 24000, channelData = [0]\<rparr>"
  by code_simp

section \<open>Claims about playback\<close>

text \<open>
  C2, as amended. A buffer scheduled when the output clock reads \<open>now\<close> starts at
  \<open>max(nextStartTime, now)\<close>, and \<open>nextStartTime\<close> becomes that start time plus the
  buffer's duration. For buffers scheduled one after the other with no interruption in
  between, the start times are those of the specification's \<open>schedule\<close>; no buffer
  starts before the previous one has ended; the buffers are back to back exactly when each
  buffer after the first is scheduled before the clock has passed the end of the previous
  one; and the first buffer starts no earlier than the clock time of its scheduling.
\<close>

theorem schedule_contiguity:
  assumes "outputAudioContext m = Some ctx"
  shows "nextStartTime (schedulePlayback b ctx m) = max (nextStartTime m) (currentTime ctx) + duration b
     \<and> starts (trace (schedulePlayback b ctx m)) =
         starts (trace m) @ [(max (nextStartTime m) (currentTime ctx), duration b)]
     \<and> starts (trace (schedule_all steps m)) =
         starts (trace m) @ expected_starts (nextStartTime m) (currentTime ctx) steps
     \<and> no_overlap (expected_starts (nextStartTime m) (currentTime ctx) steps)
     \<and> (back_to_back (expected_starts (nextStartTime m) (currentTime ctx) steps)
          \<longleftrightarrow> on_time (nextStartTime m) (currentTime ctx) steps)
     \<and> (steps \<noteq> [] \<longrightarrow>
          currentTime ctx + fst (hd steps)
            \<le> fst (hd (expected_starts (nextStartTime m) (currentTime ctx) steps)))"
proof (intro conjI impI)
  show "starts (trace (schedule_all steps m)) =
         starts (trace m) @ expected_starts (nextStartTime m) (currentTime ctx) steps"
    using assms by (rule starts_schedule_all)
  show "no_overlap (expected_starts (nextStartTime m) (currentTime ctx) steps)"
    by (rule no_overlap_expected)
  show "back_to_back (expected_starts (nextStartTime m) (currentTime ctx) steps)
          \<longleftrightarrow> on_time (nextStartTime m) (currentTime ctx) steps"
    by (rule back_to_back_expected)
next
  assume "steps \<noteq> []"
  then obtain d b rest where "steps = (d, b) # rest" by (cases steps) auto
  then show "currentTime ctx + fst (hd steps)
            \<le> fst (hd (expected_starts (nextStartTime m) (currentTime ctx) steps))"
    using first_expected [of "nextStartTime m" "currentTime ctx" d b rest] by simp
qed (simp_all add: schedulePlayback_fields starts_append)

theorem schedule_contiguity_witness:
  "starts (trace (schedule_all [(0, half_second), (0, half_second)] running)) =
     [(0, 1 / 2), (1 / 2, 1 / 2)]
   \<and> no_overlap [(0, 1 / 2), (1 / 2, 1 / 2)]
   \<and> back_to_back [(0, 1 / 2), (1 / 2, 1 / 2)]"
proof -
  have c: "outputAudioContext running = Some \<lparr>ctx_id = 1, ctx_sampleRate = 24000, currentTime = 0\<rparr>"
    by (simp add: running_eq)
  have e: "expected_starts 0 0 [(0, half_second), (0, half_second)] = [(0, 1 / 2), (1 / 2, 1 / 2)]"
    by (simp add: Let_def duration_half_second)
  have n: "nextStartTime running = 0" "starts (trace running) = []"
    by (simp_all add: running_eq)
  let ?ctx = "\<lparr>ctx_id = 1, ctx_sampleRate = 24000, currentTime = 0\<rparr>"
  let ?steps = "[(0, half_second), (0, half_second)]"
  from schedule_contiguity [OF c, of half_second ?steps]
  have "starts (trace (schedule_all ?steps running)) =
          starts (trace running) @ expected_starts (nextStartTime running) (currentTime ?ctx) ?steps"
    and "no_overlap (expected_starts (nextStartTime running) (currentTime ?ctx) ?steps)"
    by blast+
  moreover have "currentTime ?ctx = 0" by simp
  ultimately have "starts (trace (schedule_all ?steps running)) = [(0, 1 / 2), (1 / 2, 1 / 2)]"
    and "no_overlap [(0, 1 / 2), (1 / 2, 1 / 2)]"
    by (simp_all only: n e append_Nil)
  moreover have "back_to_back [(0, 1 / 2), (1 / 2, 1 / 2 :: rat)]" by simp
  ultimately show ?thesis by (intro conjI)
qed

text \<open>
  A gap: two buffers of half a second each, the second scheduled two seconds after the
  first. It starts at \<open>2\<close>, not at \<open>1 / 2\<close> where the first one ends.
\<close>

theorem schedule_contiguity_counterexample:
  "starts (trace (schedule_all [(0, half_second), (2, half_second)] running)) =
     [(0, 1 / 2), (2, 1 / 2)]
   \<and> \<not> back_to_back [(0, 1 / 2), (2, 1 / 2)]"
  by (simp add: running_eq tick_def schedulePlayback_def Let_def duration_half_second)

text \<open>
  C3. \<^verbatim>\<open>stopAudioPlayback\<close> calls \<open>stop\<close> on every pending source, empties the pending
  set and sets \<open>nextStartTime\<close> to the output clock's time, or to \<open>0\<close> when there is no
  output context. Calling it twice is the same as calling it once (and, when the clock runs
  in between, the same as calling it once at the later time), and on an empty pending set
  it makes no call at all. It cannot fail: every member of the set was started before
  it was added, so \<open>stop\<close> has nothing to throw. The message handler runs it when the
  message is flagged as interrupted.
\<close>

theorem interrupt_resets:
  "sources (stopAudioPlayback m) = []
   \<and> trace (stopAudioPlayback m) = trace m @ map (\<lambda>s. SourceStopped (node_id s)) (sources m)
   \<and> (\<forall>s \<in> set (sources m). SourceStopped (node_id s) \<in> set (trace (stopAudioPlayback m)))
   \<and> nextStartTime (stopAudioPlayback m) =
        (case outputAudioContext m of Some ctx \<Rightarrow> currentTime ctx | None \<Rightarrow> 0)
   \<and> stopAudioPlayback (stopAudioPlayback m) = stopAudioPlayback m
   \<and> stopAudioPlayback (tick d (stopAudioPlayback m)) = stopAudioPlayback (tick d m)
   \<and> (sources m = [] \<longrightarrow> trace (stopAudioPlayback m) = trace m)
   \<and> handle_interruption message m = (if interrupted message then stopAudioPlayback m else m)"
  by (auto simp: stopAudioPlayback_def handle_interruption_def tick_def split: option.splits)

theorem interrupt_resets_witness:
  "sources (stopAudioPlayback (schedule_all [(0, half_second), (0, half_second)] running)) = []
   \<and> nextStartTime (stopAudioPlayback (schedule_all [(0, half_second), (0, half_second)] running)) = 0
   \<and> SourceStopped 5 \<in> set (trace (stopAudioPlayback (schedule_all [(0, half_second), (0, half_second)] running)))
   \<and> SourceStopped 6 \<in> set (trace (stopAudioPlayback (schedule_all [(0, half_second), (0, half_second)] running)))
   \<and> trace (stopAudioPlayback running) = trace running"
proof -
  let ?m = "schedule_all [(0, half_second), (0, half_second)] running"
  have s: "map node_id (sources ?m) = [5, 6]" "map_option currentTime (outputAudioContext ?m) = Some 0"
    by (simp_all add: running_eq tick_def schedulePlayback_def Let_def)
  have r: "sources running = []" by (simp add: running_eq)
  note t = interrupt_resets [of ?m 0 audio_message] interrupt_resets [of running 0 audio_message]
  from t(1) have "sources (stopAudioPlayback ?m) = []"
    and n: "nextStartTime (stopAudioPlayback ?m) =
          (case outputAudioContext ?m of Some ctx \<Rightarrow> currentTime ctx | None \<Rightarrow> 0)"
    and q: "\<forall>s \<in> set (sources ?m). SourceStopped (node_id s) \<in> set (trace (stopAudioPlayback ?m))"
    by blast+
  moreover from n s(2) have "nextStartTime (stopAudioPlayback ?m) = 0"
    by (cases "outputAudioContext ?m") simp_all
  moreover from q have "\<forall>i \<in> set (map node_id (sources ?m)). SourceStopped i \<in> set (trace (stopAudioPlayback ?m))"
    by simp
  then have "SourceStopped 5 \<in> set (trace (stopAudioPlayback ?m))"
    "SourceStopped 6 \<in> set (trace (stopAudioPlayback ?m))"
    unfolding s(1) by simp_all
  moreover from t(2) r have "trace (stopAudioPlayback running) = trace running" by blast
  ultimately show ?thesis by blast
qed

section \<open>Claims about message handling\<close>




text \<open>
  C10. When the callback throws or rejects for a function call, the entry sent back for
  that call carries the error string \<^verbatim>\<open>Failed to execute function\<close>; what was thrown
  does not reach the frame: replacing every thrown value by any other value changes
  nothing in what the handler does.
\<close>

theorem failure_response_constant:
  assumes "toolCall message = Some functionCalls"
    and "activeSessionPromise m = Some (Fulfilled session)"
    and "i < length functionCalls"
    and "callback (fc_name (functionCalls ! i)) (fc_args (functionCalls ! i)) = Inl err"
  shows "\<exists>responses.
           tool_responses_sent (trace (handleMessage message (Some callback) m)) =
             tool_responses_sent (trace m) @ [(session, responses)]
         \<and> responses ! i =
             \<lparr>fr_id = fc_id (functionCalls ! i), fr_name = fc_name (functionCalls ! i),
              fr_response = Error ''Failed to execute function''\<rparr>
         \<and> handleMessage message (Some (\<lambda>name args. map_sum (\<lambda>e. other) id (callback name args))) m =
             handleMessage message (Some callback) m"
  using assms
  by (simp add: responses_handleMessage handleMessage_thrown_value tool_response_def)

theorem failure_response_constant_witness:
  "\<exists>responses.
     tool_responses_sent (trace (handleMessage tool_message (Some some_callback) running)) =
       [(4, responses)]
     \<and> responses ! 1 =
         \<lparr>fr_id = ''call-2'', fr_name = ''control_location'',
          fr_response = Error ''Failed to execute function''\<rparr>"
proof -
  have a: "toolCall tool_message = Some [image_call, location_call]"
    by (simp add: tool_message_def)
  have b: "activeSessionPromise running = Some (Fulfilled 4)"
    by (simp add: running_eq)
  have c: "tool_responses_sent (trace running) = []"
    by (simp add: running_eq)
  have i: "1 < length [image_call, location_call]" by simp
  have e: "some_callback (fc_name ([image_call, location_call] ! 1))
             (fc_args ([image_call, location_call] ! 1)) = Inl ''denied''"
    by (simp add: some_callback_def location_call_def)
  from failure_response_constant
    [where callback = some_callback and i = 1 and functionCalls = "[image_call, location_call]"
       and message = tool_message and m = running and session = 4 and err = "''denied''",
     OF a b i e]
  show ?thesis
    by (simp add: c location_call_def) blast
qed

text \<open>
  C6. When \<^verbatim>\<open>atob\<close> rejects the chunk, or the decoded byte length is odd,
  \<^verbatim>\<open>decodeAudioData\<close> throws (\<^verbatim>\<open>InvalidCharacterError\<close> or \<^verbatim>\<open>RangeError\<close>); the audio branch of the handler catches the exception and
  only logs it. A message carrying such a chunk leaves the manager in the state that the
  same message without the chunk leaves it in (trace apart), starts no source and sends
  the same tool responses; if it carries nothing else, the pending set, the cursor and the
  session are untouched.
\<close>

theorem decode_failure_skipped:
  assumes "atob base64 = Inl err \<or> (\<exists>bytes. atob base64 = Inr bytes \<and> odd (length bytes))"
  shows "\<exists>e. decodeAudioData base64 = Inl e
     \<and> (e = InvalidCharacterError \<or> e = RangeError)
     \<and> handle_audio base64 ctx m = emit [ConsoleError e] m
     \<and> (\<forall>message onToolCall. inlineData message = Some base64 \<longrightarrow>
          (handleMessage message onToolCall m)\<lparr>trace := []\<rparr> =
            (handleMessage (message\<lparr>inlineData := None\<rparr>) onToolCall m)\<lparr>trace := []\<rparr>
          \<and> starts (trace (handleMessage message onToolCall m)) =
              starts (trace (handleMessage (message\<lparr>inlineData := None\<rparr>) onToolCall m))
          \<and> tool_responses_sent (trace (handleMessage message onToolCall m)) =
              tool_responses_sent (trace (handleMessage (message\<lparr>inlineData := None\<rparr>) onToolCall m))
          \<and> (toolCall message = None \<and> \<not> interrupted message \<longrightarrow>
               handleMessage message onToolCall m = m
               \<or> handleMessage message onToolCall m = emit [ConsoleError e] m))"
proof -
  from decodeAudioData_fails [OF assms] obtain e where e: "decodeAudioData base64 = Inl e"
    and k: "e = InvalidCharacterError \<or> e = RangeError"
    by blast
  have "handle_audio base64 ctx m = emit [ConsoleError e] m"
    by (simp add: handle_audio_def e)
  moreover have "(handleMessage message onToolCall m)\<lparr>trace := []\<rparr> =
            (handleMessage (message\<lparr>inlineData := None\<rparr>) onToolCall m)\<lparr>trace := []\<rparr>
          \<and> starts (trace (handleMessage message onToolCall m)) =
              starts (trace (handleMessage (message\<lparr>inlineData := None\<rparr>) onToolCall m))
          \<and> tool_responses_sent (trace (handleMessage message onToolCall m)) =
              tool_responses_sent (trace (handleMessage (message\<lparr>inlineData := None\<rparr>) onToolCall m))
          \<and> (toolCall message = None \<and> \<not> interrupted message \<longrightarrow>
               handleMessage message onToolCall m = m
               \<or> handleMessage message onToolCall m = emit [ConsoleError e] m)"
    if i: "inlineData message = Some base64" for message onToolCall
  proof (intro conjI impI)
    show "(handleMessage message onToolCall m)\<lparr>trace := []\<rparr> =
            (handleMessage (message\<lparr>inlineData := None\<rparr>) onToolCall m)\<lparr>trace := []\<rparr>"
      by (simp add: handleMessage_def finish_message_failed_chunk(1) [OF e i]
          split: option.splits)
    show "starts (trace (handleMessage message onToolCall m)) =
              starts (trace (handleMessage (message\<lparr>inlineData := None\<rparr>) onToolCall m))"
      by (simp add: handleMessage_def finish_message_failed_chunk(2) [OF e i]
          split: option.splits)
    show "tool_responses_sent (trace (handleMessage message onToolCall m)) =
              tool_responses_sent (trace (handleMessage (message\<lparr>inlineData := None\<rparr>) onToolCall m))"
      by (simp add: handleMessage_def finish_message_failed_chunk(3) [OF e i]
          split: option.splits)
  next
    assume "toolCall message = None \<and> \<not> interrupted message"
    then show "handleMessage message onToolCall m = m
               \<or> handleMessage message onToolCall m = emit [ConsoleError e] m"
      using e i
      by (auto simp: handleMessage_def finish_message_def handle_audio_def handle_interruption_def
          emit_Nil Let_def split: option.splits list.splits)
  qed
  ultimately show ?thesis using e k by blast
qed

theorem decode_failure_skipped_witness:
  "\<exists>e. decodeAudioData ''AAAA'' = Inl e
     \<and> handle_audio ''AAAA'' \<lparr>ctx_id = 1, ctx_sampleRate = 24000, currentTime = 0\<rparr> running = emit [ConsoleError e] running
     \<and> sources (handleMessage (audio_message\<lparr>inlineData := Some ''AAAA''\<rparr>) None running) = []
     \<and> nextStartTime (handleMessage (audio_message\<lparr>inlineData := Some ''AAAA''\<rparr>) None running) = 0
     \<and> starts (trace (handleMessage (audio_message\<lparr>inlineData := Some ''AAAA''\<rparr>) None running)) = []"
proof -
  let ?msg = "audio_message\<lparr>inlineData := Some ''AAAA''\<rparr>"
  have h: "atob ''AAAA'' = Inl InvalidCharacterError
           \<or> (\<exists>bytes. atob ''AAAA'' = Inr bytes \<and> odd (length bytes))"
    by (simp add: atob_AAAA)
  from decode_failure_skipped [OF h, of "\<lparr>ctx_id = 1, ctx_sampleRate = 24000, currentTime = 0\<rparr>" running] obtain e where
    e: "decodeAudioData ''AAAA'' = Inl e" "handle_audio ''AAAA'' \<lparr>ctx_id = 1, ctx_sampleRate = 24000, currentTime = 0\<rparr> running = emit [ConsoleError e] running"
    and q: "\<forall>message onToolCall. inlineData message = Some ''AAAA'' \<longrightarrow>
          (handleMessage message onToolCall running)\<lparr>trace := []\<rparr> =
            (handleMessage (message\<lparr>inlineData := None\<rparr>) onToolCall running)\<lparr>trace := []\<rparr>
          \<and> starts (trace (handleMessage message onToolCall running)) =
              starts (trace (handleMessage (message\<lparr>inlineData := None\<rparr>) onToolCall running))
          \<and> tool_responses_sent (trace (handleMessage message onToolCall running)) =
              tool_responses_sent (trace (handleMessage (message\<lparr>inlineData := None\<rparr>) onToolCall running))
          \<and> (toolCall message = None \<and> \<not> interrupted message \<longrightarrow>
               handleMessage message onToolCall running = running
               \<or> handleMessage message onToolCall running = emit [ConsoleError e] running)"
    by blast
  have "inlineData ?msg = Some ''AAAA''" "toolCall ?msg = None \<and> \<not> interrupted ?msg"
    by (simp_all add: audio_message_def)
  with q [rule_format, of ?msg None]
  have "handleMessage ?msg None running = running
        \<or> handleMessage ?msg None running = emit [ConsoleError e] running"
    by blast
  then have "sources (handleMessage ?msg None running) = []
     \<and> nextStartTime (handleMessage ?msg None running) = 0
     \<and> starts (trace (handleMessage ?msg None running)) = []"
    by (auto simp: emit_fields running_eq starts_append)
  with e show ?thesis by blast
qed

text \<open>
  C9, as amended. Audio sent to the service is base64 text over 16-bit signed samples, low
  byte first, tagged \<^verbatim>\<open>audio/pcm;rate=16000\<close>, captured by an input context running at
  16000 Hz. Audio received from the service is base64 text over 16-bit signed samples, low
  byte first, one channel, and is played as 24000 Hz audio on an output context running at
  24000 Hz.
\<close>

theorem wire_formats:
  "(\<exists>d. createPcmBlob samples = Inr \<lparr>data = d, mimeType = ''audio/pcm;rate=16000''\<rparr>
        \<and> atob d = Inr (map unat (int16_bytes (map pcm_sample samples)))
        \<and> onaudioprocess samples (Fulfilled session) m =
            emit [RealtimeInputSent session \<lparr>data = d, mimeType = ''audio/pcm;rate=16000''\<rparr>] m)
   \<and> (\<forall>buf. decodeAudioData base64 = Inr buf \<longrightarrow>
         sampleRate buf = 24000 \<and> numberOfChannels buf = 1
         \<and> (\<exists>bytes. atob base64 = Inr bytes
               \<and> channelData buf =
                   map (\<lambda>w. of_int (sint w) / 32768) (bytes_int16 (map of_nat bytes))))
   \<and> (\<forall>lo hi w. bytes_int16 [lo, hi] = [w] \<longrightarrow> unat w = unat lo + 256 * unat hi)
   \<and> (\<forall>lo hi w. int16_bytes [w] = [lo, hi] \<longrightarrow> unat w = unat lo + 256 * unat hi)
   \<and> (user_media env = None \<longrightarrow>
         map_option ctx_sampleRate (inputAudioContext (snd (startSession env m0))) = Some 16000
         \<and> map_option ctx_sampleRate (outputAudioContext (snd (startSession env m0))) = Some 24000)"
proof (intro conjI allI impI)
  let ?d = "b64_encode (map unat (int16_bytes (map pcm_sample samples)))"
  have "createPcmBlob samples = Inr \<lparr>data = ?d, mimeType = ''audio/pcm;rate=16000''\<rparr>"
    by (rule createPcmBlob_eq)
  moreover have "atob ?d = Inr (map unat (int16_bytes (map pcm_sample samples)))"
    by (rule atob_b64_encode) (rule unat_byte_bound)
  moreover have "onaudioprocess samples (Fulfilled session) m =
            emit [RealtimeInputSent session \<lparr>data = ?d, mimeType = ''audio/pcm;rate=16000''\<rparr>] m"
    by (simp add: onaudioprocess_def createPcmBlob_eq)
  ultimately show "\<exists>d. createPcmBlob samples = Inr \<lparr>data = d, mimeType = ''audio/pcm;rate=16000''\<rparr>
        \<and> atob d = Inr (map unat (int16_bytes (map pcm_sample samples)))
        \<and> onaudioprocess samples (Fulfilled session) m =
            emit [RealtimeInputSent session \<lparr>data = d, mimeType = ''audio/pcm;rate=16000''\<rparr>] m"
    by blast
next
  fix buf assume b: "decodeAudioData base64 = Inr buf"
  from decodeAudioData_Inr [OF b]
  show "sampleRate buf = 24000" "numberOfChannels buf = 1"
    "\<exists>bytes. atob base64 = Inr bytes
               \<and> channelData buf =
                   map (\<lambda>w. of_int (sint w) / 32768) (bytes_int16 (map of_nat bytes))"
    by auto
next
  fix lo hi :: "8 word" and w :: "16 word"
  assume "bytes_int16 [lo, hi] = [w]"
  then show "unat w = unat lo + 256 * unat hi"
    using bytes_int16_little_endian [of lo hi] by simp
next
  fix lo hi :: "8 word" and w :: "16 word"
  assume "int16_bytes [w] = [lo, hi]"
  then show "unat w = unat lo + 256 * unat hi"
    by (rule int16_bytes_little_endian)
next
  assume "user_media env = None"
  then show "map_option ctx_sampleRate (inputAudioContext (snd (startSession env m0))) = Some 16000"
    "map_option ctx_sampleRate (outputAudioContext (snd (startSession env m0))) = Some 24000"
    by (simp_all add: startSession_def Let_def emit_def)
qed

theorem wire_formats_witness:
  "(\<exists>d. createPcmBlob [0] = Inr \<lparr>data = d, mimeType = ''audio/pcm;rate=16000''\<rparr>
        \<and> onaudioprocess [0] (Fulfilled 4) running =
            emit [RealtimeInputSent 4 \<lparr>data = d, mimeType = ''audio/pcm;rate=16000''\<rparr>] running)
   \<and> map_option ctx_sampleRate (inputAudioContext running) = Some 16000
   \<and> map_option ctx_sampleRate (outputAudioContext running) = Some 24000"
proof -
  note t = wire_formats [of "[0]" 4 running "''AAA=''" granted initial]
  from t have "\<exists>d. createPcmBlob [0] = Inr \<lparr>data = d, mimeType = ''audio/pcm;rate=16000''\<rparr>
        \<and> onaudioprocess [0] (Fulfilled 4) running =
            emit [RealtimeInputSent 4 \<lparr>data = d, mimeType = ''audio/pcm;rate=16000''\<rparr>] running"
    by blast
  moreover have "user_media granted = None" by (simp add: granted_def)
  with t have "map_option ctx_sampleRate (inputAudioContext running) = Some 16000
   \<and> map_option ctx_sampleRate (outputAudioContext running) = Some 24000"
    unfolding running_def by blast
  ultimately show ?thesis by blast
qed

text \<open>
  The same chunk in both directions: sent, it is labelled 16000 Hz; received, it becomes a
  24000 Hz buffer.
\<close>

theorem wire_formats_counterexample:
  "createPcmBlob [0] = Inr \<lparr>data = ''AAA='', mimeType = ''audio/pcm;rate=16000''\<rparr>
   \<and> decodeAudioData ''AAA='' =
        Inr \<lparr>numberOfChannels = 1, sampleRate = 24000, channelData = [0]\<rparr>
   \<and> map (sampleRate \<circ> buffer) (sources (handleMessage audio_message None running)) = [24000]
   \<and> (24000 :: nat) \<noteq> 16000"
proof -
  have c: "createPcmBlob [0] = Inr \<lparr>data = ''AAA='', mimeType = ''audio/pcm;rate=16000''\<rparr>"
    by code_simp
  have d: "decodeAudioData ''AAA='' =
        Inr \<lparr>numberOfChannels = 1, sampleRate = 24000, channelData = [0]\<rparr>"
    by code_simp
  have "map (sampleRate \<circ> buffer) (sources (handleMessage audio_message None running)) = [24000]"
    by (simp add: handleMessage_def finish_message_def handle_audio_def handle_interruption_def
        audio_message_def d schedulePlayback_def emit_def running_eq Let_def)
  with c d show ?thesis by simp
qed

section \<open>Claims about the order of handling\<close>




text \<open>
  A later message that carries a function call of its own waits for its own callback: its
  audio is scheduled when that callback has settled, here after the response to the first
  message.
\<close>

lemma later_call_waits:
  "trace (mgr (run True
      [Message location_message, Message both_message,
       Settled 0 (Inr ''Location found: Paris''), Settled 1 (Inr ''ok'')]
      idle)) =
     trace running @
       [ToolCalled ''control_location'' ''{}'',
        ToolCalled ''generate_image'' ''{targetName: frame}'',
        ToolResponseSent 4
          [\<lparr>fr_id = ''call-2'', fr_name = ''control_location'',
            fr_response = Result ''Location found: Paris''\<rparr>],
        ToolResponseSent 4
          [\<lparr>fr_id = ''call-1'', fr_name = ''generate_image'', fr_response = Result ''ok''\<rparr>],
        SourceStarted 5 0 (1 / 24000)]"
  by (simp add: run_def on_message_def on_settled_def location_message_def both_message_def idle_def
      finish_message_def handle_audio_def handle_interruption_def decode_AAA schedulePlayback_def
      send_responses_def tool_response_def emit_def location_call_def image_call_def
      running_eq Let_def duration_def)

text \<open>
  A session that the manager has forgotten goes on delivering messages. Its function calls
  are made, and the responses, although they are ready before the next message, are sent
  to nobody.
\<close>

lemma forgotten_session_unanswered:
  "trace (mgr (run True
      [StartCalled, SessionAwaited 0 False, MediaSettled 0 None True, Closed 4,
       Message image_message, Settled 1 (Inr ''ok'')] idle)) =
   trace (mgr (run True
      [StartCalled, SessionAwaited 0 False, MediaSettled 0 None True, Closed 4] idle)) @
     [ToolCalled ''generate_image'' ''{targetName: frame}'']"
  by (simp add: loop_defs manager_defs running_eq image_message_def image_call_def)

section \<open>Properties of the life cycle\<close>

text \<open>
  \<open>never_two_mics\<close> says what it should: at every point of the trace, at most one stream
  is alive.
\<close>

lemma mics_ok_append:
  "mics_ok S (xs @ ys) \<longleftrightarrow> mics_ok S xs \<and> mics_ok (foldl mic_step S xs) ys"
  by (induction xs arbitrary: S) (cases ys; auto)+

lemma mics_ok_iff:
  "mics_ok S t \<longleftrightarrow> (\<forall>n \<le> length t. card (foldl mic_step S (take n t)) \<le> 1)"
proof (induction t arbitrary: S)
  case Nil
  then show ?case by simp
next
  case (Cons e t)
  show ?case
  proof
    assume a: "mics_ok S (e # t)"
    show "\<forall>n \<le> length (e # t). card (foldl mic_step S (take n (e # t))) \<le> 1"
    proof (intro allI impI)
      fix n assume "n \<le> length (e # t)"
      then show "card (foldl mic_step S (take n (e # t))) \<le> 1"
        using a Cons.IH [of "mic_step S e"] by (cases n) auto
    qed
  next
    assume b: "\<forall>n \<le> length (e # t). card (foldl mic_step S (take n (e # t))) \<le> 1"
    from b [rule_format, of 0] have "card S \<le> 1" by simp
    moreover have "\<forall>n \<le> length t. card (foldl mic_step (mic_step S e) (take n t)) \<le> 1"
    proof (intro allI impI)
      fix n assume "n \<le> length t"
      with b [rule_format, of "Suc n"] show "card (foldl mic_step (mic_step S e) (take n t)) \<le> 1"
        by simp
    qed
    ultimately show "mics_ok S (e # t)" using Cons.IH [of "mic_step S e"] by simp
  qed
qed

lemma never_two_mics_iff:
  "never_two_mics t \<longleftrightarrow> (\<forall>n \<le> length t. card (live_mics (take n t)) \<le> 1)"
  by (simp add: never_two_mics_def live_mics_def mics_ok_iff)

lemma never_two_mics_append:
  "never_two_mics (xs @ ys) \<longleftrightarrow> never_two_mics xs \<and> mics_ok (live_mics xs) ys"
  by (simp add: never_two_mics_def live_mics_def mics_ok_append)

lemma live_mics_append: "live_mics (xs @ ys) = foldl mic_step (live_mics xs) ys"
  by (simp add: live_mics_def)

lemma open_contexts_append: "open_contexts (xs @ ys) = foldl context_step (open_contexts xs) ys"
  by (simp add: open_contexts_def)

lemma open_sessions_append: "open_sessions (xs @ ys) = foldl session_step (open_sessions xs) ys"
  by (simp add: open_sessions_def)

lemma connected_processors_append:
  "connected_processors (xs @ ys) = foldl processor_step (connected_processors xs) ys"
  by (simp add: connected_processors_def)

lemma unstopped_sources_append:
  "unstopped_sources (xs @ ys) = foldl playing_step (unstopped_sources xs) ys"
  by (simp add: unstopped_sources_def)

lemmas held_append = live_mics_append open_contexts_append open_sessions_append
  connected_processors_append unstopped_sources_append

lemmas step_defs = mic_step_def context_step_def session_step_def processor_step_def
  playing_step_def

lemma fold_stops:
  "foldl mic_step S (map (\<lambda>s. SourceStopped (f s)) xs) = S"
  "foldl context_step S (map (\<lambda>s. SourceStopped (f s)) xs) = S"
  "foldl session_step S (map (\<lambda>s. SourceStopped (f s)) xs) = S"
  "foldl processor_step S (map (\<lambda>s. SourceStopped (f s)) xs) = S"
  by (induction xs arbitrary: S) (simp_all add: step_defs)

lemma fold_playing_stops:
  "foldl playing_step S (map (\<lambda>s. SourceStopped (f s)) xs) = S - f ` set xs"
  by (induction xs arbitrary: S) (auto simp: step_defs)

lemma mics_ok_stops:
  "mics_ok S (map (\<lambda>s. SourceStopped (f s)) xs @ es) = mics_ok S es"
  by (induction xs) (cases es; simp add: step_defs)+

lemma cleanup_fields:
  "sources (cleanup m) = []" "nextStartTime (cleanup m) = 0" "processor (cleanup m) = None"
  "source (cleanup m) = None" "mediaStream (cleanup m) = None"
  "inputAudioContext (cleanup m) = None" "outputAudioContext (cleanup m) = None"
  "activeSessionPromise (cleanup m) = None" "outputNode (cleanup m) = outputNode m"
  "fresh (cleanup m) = fresh m"
  by (simp_all add: cleanup_def stopAudioPlayback_def emit_def Let_def split: option.splits)

lemma cleanup_trace:
  "trace (cleanup m) = trace m @ map (\<lambda>s. SourceStopped (node_id s)) (sources m)
     @ (case processor m of Some p \<Rightarrow> [ProcessorDisconnected p] | None \<Rightarrow> [])
     @ (case source m of Some s \<Rightarrow> [InputSourceDisconnected s] | None \<Rightarrow> [])
     @ (case mediaStream m of Some i \<Rightarrow> [MicStopped i] | None \<Rightarrow> [])
     @ (case inputAudioContext m of Some c \<Rightarrow> [ContextClosed (ctx_id c)] | None \<Rightarrow> [])
     @ (case outputAudioContext m of Some c \<Rightarrow> [ContextClosed (ctx_id c)] | None \<Rightarrow> [])"
  by (simp add: cleanup_def stopAudioPlayback_def emit_def Let_def split: option.splits)

lemma released_cleanup: "released (cleanup m)"
  by (simp add: released_def cleanup_fields)

lemma cleanup_released: "released m \<Longrightarrow> cleanup m = m"
  by (cases m) (simp add: released_def cleanup_def stopAudioPlayback_def emit_def Let_def)

lemma released_stopSession: "released (stopSession c m)"
  by (simp add: stopSession_def released_cleanup)

lemma stopSession_released:
  assumes "released m"
  shows "stopSession c m = m"
proof -
  from assms have "activeSessionPromise m = None" by (simp add: released_def)
  with assms show ?thesis by (simp add: stopSession_def cleanup_released)
qed

lemma startSession_after_stop:
  "startSession env m = startSession env (stopSession (close_throws env) m)"
  by (simp add: startSession_def stopSession_released [OF released_stopSession])

lemma held_cleanup:
  "live_mics (trace (cleanup m)) = live_mics (trace m) - set_option (mediaStream m)"
  "open_contexts (trace (cleanup m)) =
     open_contexts (trace m)
       - ctx_id ` (set_option (inputAudioContext m) \<union> set_option (outputAudioContext m))"
  "open_sessions (trace (cleanup m)) = open_sessions (trace m)"
  "connected_processors (trace (cleanup m)) = connected_processors (trace m) - set_option (processor m)"
  "unstopped_sources (trace (cleanup m)) = unstopped_sources (trace m) - node_id ` set (sources m)"
  by (auto simp: cleanup_trace held_append fold_stops fold_playing_stops step_defs
      split: option.splits)

lemma finite_live_mics: "finite (live_mics t)"
proof -
  have "finite S \<Longrightarrow> finite (foldl mic_step S t)" for S
    by (induction t arbitrary: S) (auto simp: mic_step_def split: effect.splits)
  then show ?thesis by (simp add: live_mics_def)
qed

lemma card_Diff_le1: "finite S \<Longrightarrow> card S \<le> 1 \<Longrightarrow> card (S - T) \<le> 1"
  by (meson Diff_subset card_mono le_trans)

lemma never_two_mics_last: "never_two_mics t \<Longrightarrow> card (live_mics t) \<le> 1"
  by (simp add: never_two_mics_iff) (metis order_refl take_all)

lemma never_two_mics_cleanup:
  assumes "never_two_mics (trace m)"
  shows "never_two_mics (trace (cleanup m))"
proof -
  have c: "card (live_mics (trace m)) \<le> 1" using assms by (rule never_two_mics_last)
  have d: "card (live_mics (trace m) - T) \<le> 1" for T
    using c finite_live_mics by (rule card_Diff_le1 [rotated])
  show ?thesis
    using assms c d
    by (simp add: cleanup_trace never_two_mics_append mics_ok_stops step_defs split: option.splits)
qed

lemma stopSession_trace:
  "trace (stopSession c m) =
     trace (cleanup (m\<lparr>trace := trace m @
        (case activeSessionPromise m of
           None \<Rightarrow> []
         | Some Rejected \<Rightarrow> [ConsoleWarn]
         | Some (Fulfilled session) \<Rightarrow> SessionClosed session # (if c then [ConsoleWarn] else []))\<rparr>))"
  by (simp add: stopSession_def emit_def split: option.splits session_promise.splits)

lemma stopSession_fresh: "fresh (stopSession c m) = fresh m"
  by (simp add: stopSession_def cleanup_fields emit_fields split: option.splits session_promise.splits)

lemma held_stopSession:
  assumes "accounted m"
  shows "live_mics (trace (stopSession c m)) = {}"
    and "open_contexts (trace (stopSession c m)) = {}"
    and "open_sessions (trace (stopSession c m)) = {}"
    and "connected_processors (trace (stopSession c m)) = {}"
    and "unstopped_sources (trace (stopSession c m)) \<subseteq> unstopped_sources (trace m)"
    and "\<forall>s \<in> set (sources m). SourceStopped (node_id s) \<in> set (trace (stopSession c m))"
    and "never_two_mics (trace (stopSession c m))"
    and "\<exists>es. trace (stopSession c m) = trace m @ es"
proof -
  let ?pre = "case activeSessionPromise m of
           None \<Rightarrow> []
         | Some Rejected \<Rightarrow> [ConsoleWarn]
         | Some (Fulfilled session) \<Rightarrow> SessionClosed session # (if c then [ConsoleWarn] else [])"
  let ?m = "m\<lparr>trace := trace m @ ?pre\<rparr>"
  have t: "trace (stopSession c m) = trace (cleanup ?m)" by (rule stopSession_trace)
  have a: "live_mics (trace ?m) = live_mics (trace m)"
    "open_contexts (trace ?m) = open_contexts (trace m)"
    "connected_processors (trace ?m) = connected_processors (trace m)"
    "unstopped_sources (trace ?m) = unstopped_sources (trace m)"
    "open_sessions (trace ?m) = {}"
    using assms
    by (auto simp: accounted_def held_append step_defs split: option.splits session_promise.splits)
  from assms a show "live_mics (trace (stopSession c m)) = {}"
    "open_contexts (trace (stopSession c m)) = {}"
    "open_sessions (trace (stopSession c m)) = {}"
    "connected_processors (trace (stopSession c m)) = {}"
    "unstopped_sources (trace (stopSession c m)) \<subseteq> unstopped_sources (trace m)"
    unfolding t by (auto simp: held_cleanup accounted_def)
  show "\<forall>s \<in> set (sources m). SourceStopped (node_id s) \<in> set (trace (stopSession c m))"
    unfolding t by (auto simp: cleanup_trace)
  have "never_two_mics (trace ?m)"
    using assms never_two_mics_last [of "trace m"]
    by (auto simp: accounted_def never_two_mics_append step_defs
        split: option.splits session_promise.splits)
  then show "never_two_mics (trace (stopSession c m))"
    unfolding t by (rule never_two_mics_cleanup)
  show "\<exists>es. trace (stopSession c m) = trace m @ es"
    unfolding t by (simp add: cleanup_trace)
qed

lemma accounted_stopSession:
  assumes "accounted m"
  shows "accounted (stopSession c m)"
proof -
  have r: "released (stopSession c m)" by (rule released_stopSession)
  have "\<forall>i \<in> unstopped_sources (trace (stopSession c m)). i < fresh m"
    using held_stopSession(5) [OF assms, of c] assms by (auto simp: accounted_def)
  with held_stopSession [OF assms, of c] r show ?thesis
    by (simp add: accounted_def released_def stopSession_fresh)
qed

lemma startSession_from_released:
  assumes r: "released m" and a: "accounted m"
  shows "case startSession env m of (thrown, m') \<Rightarrow>
       (thrown = None \<longleftrightarrow> user_media env = None)
     \<and> sources m' = [] \<and> nextStartTime m' = 0 \<and> processor m' = None
     \<and> (\<exists>es. trace m' = trace m @ es)
     \<and> never_two_mics (trace m')
     \<and> accounted m'
     \<and> (\<forall>i \<in> live_mics (trace m') \<union> open_contexts (trace m') \<union> open_sessions (trace m')
            \<union> connected_processors (trace m'). fresh m \<le> i)
     \<and> (thrown = None \<longrightarrow> card (live_mics (trace m')) = 1
           \<and> (if connects env then card (open_sessions (trace m')) = 1
               else open_sessions (trace m') = {}))
     \<and> (thrown \<noteq> None \<longrightarrow> live_mics (trace m') = {} \<and> open_sessions (trace m') = {}
           \<and> open_contexts (trace m') = {})"
proof -
  from r a have e: "live_mics (trace m) = {}" "open_contexts (trace m) = {}"
    "open_sessions (trace m) = {}" "connected_processors (trace m) = {}"
    "never_two_mics (trace m)" "\<forall>i \<in> unstopped_sources (trace m). i < fresh m"
    by (auto simp: accounted_def released_def)
  from r have f: "sources m = []" "nextStartTime m = 0" "processor m = None" "source m = None"
    "mediaStream m = None" "inputAudioContext m = None" "outputAudioContext m = None"
    "activeSessionPromise m = None"
    by (simp_all add: released_def)
  show ?thesis
  proof (cases "user_media env")
    case (Some err)
    then show ?thesis
      using e f
      by (auto simp: startSession_def stopSession_released [OF r] Let_def emit_def cleanup_def
          stopAudioPlayback_def accounted_def held_append step_defs never_two_mics_append)
  next
    case None
    then show ?thesis
      using e f
      by (auto simp: startSession_def stopSession_released [OF r] Let_def emit_def
          accounted_def held_append step_defs never_two_mics_append)
  qed
qed


lemma accounted_initial: "accounted initial"
  by (simp add: accounted_def initial_def live_mics_def open_contexts_def open_sessions_def
      connected_processors_def unstopped_sources_def never_two_mics_def)

lemma accounted_running: "accounted running"
  by (simp add: accounted_def running_eq live_mics_def open_contexts_def open_sessions_def
      connected_processors_def unstopped_sources_def never_two_mics_def step_defs)
text \<open>
  The invariant \<open>accounted\<close> holds initially and is kept by what a session does while it
  plays: messages, settling callbacks, the clock, sources ending, and by \<^verbatim>\<open>stopSession\<close>.
\<close>

lemma fold_quiet:
  assumes "list_all quiet es"
  shows "foldl mic_step S es = S" "foldl context_step S es = S" "foldl session_step S es = S"
    "foldl processor_step S es = S" "foldl playing_step S es = S"
  using assms
  by (induction es arbitrary: S) (auto simp: step_defs quiet_def split: effect.splits)

lemma mics_ok_quiet: "list_all quiet es \<Longrightarrow> mics_ok S (es @ xs) = mics_ok S xs"
  by (induction es) (cases xs; auto simp: step_defs quiet_def split: effect.splits)+

lemma accounted_emit_quiet:
  assumes "accounted m" and "list_all quiet es"
  shows "accounted (emit es m)"
  using assms never_two_mics_last [of "trace m"] mics_ok_quiet [of es "live_mics (trace m)" "[]"]
  by (simp add: accounted_def emit_fields held_append fold_quiet never_two_mics_append)

lemma quiet_send: "list_all quiet (send_responses rs m)"
  by (simp add: send_responses_def quiet_def split: option.splits session_promise.splits)

lemma accounted_schedulePlayback:
  assumes "accounted m"
  shows "accounted (schedulePlayback b ctx m)"
  using assms never_two_mics_last [of "trace m"]
  by (auto simp: accounted_def schedulePlayback_def Let_def held_append step_defs
      never_two_mics_append less_Suc_eq)

lemma accounted_stopAudioPlayback:
  assumes "accounted m"
  shows "accounted (stopAudioPlayback m)"
  using assms never_two_mics_last [of "trace m"] mics_ok_stops [of "live_mics (trace m)" node_id "sources m" "[]"]
  by (auto simp: accounted_def stopAudioPlayback_def held_append fold_stops fold_playing_stops
      never_two_mics_append)

lemma accounted_handle_audio: "accounted m \<Longrightarrow> accounted (handle_audio b ctx m)"
  by (simp add: handle_audio_def accounted_schedulePlayback accounted_emit_quiet quiet_def
      split: sum.splits)

lemma accounted_handle_interruption: "accounted m \<Longrightarrow> accounted (handle_interruption message m)"
  by (simp add: handle_interruption_def accounted_stopAudioPlayback)

lemma accounted_finish_message: "accounted m \<Longrightarrow> accounted (finish_message r message m)"
  by (auto simp: finish_message_def Let_def quiet_send
      intro!: accounted_handle_interruption accounted_handle_audio accounted_emit_quiet
      split: option.splits list.splits)

lemma accounted_handleMessage: "accounted m \<Longrightarrow> accounted (handleMessage message cb m)"
  by (auto simp: handleMessage_def quiet_def list_all_iff
      intro!: accounted_finish_message accounted_emit_quiet split: option.splits)

lemma accounted_tick: "accounted m \<Longrightarrow> accounted (tick d m)"
  by (cases "outputAudioContext m") (auto simp: accounted_def tick_def)

lemma accounted_source_ended: "accounted m \<Longrightarrow> accounted (source_ended i m)"
  by (auto simp: accounted_def source_ended_def)

section \<open>Properties of calls that overlap\<close>





































lemma startSession_parts:
  "startSession env m =
     media_settled (user_media env) (connects env)
       (create_contexts (stopSession (close_throws env) m))"
proof -
  have a: "i + 3 + 1 = i + (4::nat)" "i + 3 + 2 = i + (5::nat)" "Suc i = i + 1" "Suc (Suc i) = i + 2" for i
    by simp_all
  show ?thesis
    by (cases "user_media env")
       (simp_all add: startSession_def media_settled_def create_contexts_def Let_def emit_def a
         del: add_Suc_right One_nat_def)
qed

lemma stopSession_parts:
  "stopSession throws m =
     cleanup (case activeSessionPromise m of None \<Rightarrow> m | Some p \<Rightarrow> emit (closing throws p) m)"
  by (simp add: stopSession_def closing_def split: option.splits session_promise.splits)

text \<open>
  When no other event comes in between, the three events of a call of \<^verbatim>\<open>startSession\<close>
  amount to the function \<open>startSession\<close>.
\<close>

lemma startSession_uninterrupted:
  assumes "activeSessionPromise (mgr el) = Some p"
  shows "mgr (run hc [StartCalled, SessionAwaited (next_id el) throws,
                      MediaSettled (next_id el) result established] el) =
         snd (startSession \<lparr>close_throws = throws, user_media = result, connects = established\<rparr> (mgr el))"
  using assms
  by (simp add: run_def on_start_def on_session_awaited_def on_media_settled_def
      startSession_parts stopSession_parts)

lemma startSession_uninterrupted_idle:
  assumes "activeSessionPromise (mgr el) = None"
  shows "mgr (run hc [StartCalled, MediaSettled (next_id el) result established] el) =
         snd (startSession \<lparr>close_throws = throws, user_media = result, connects = established\<rparr> (mgr el))"
  using assms
  by (simp add: run_def on_start_def on_media_settled_def startSession_parts stopSession_parts)

lemma accounted_idle: "accounted (mgr idle)"
  by (simp add: idle_def accounted_running)

lemma accounted_call_next:
  "accounted (mgr el) \<Longrightarrow> accounted (mgr (call_next h message fcs rs el))"
  by (cases fcs) (simp_all add: accounted_finish_message accounted_emit_quiet quiet_def)

lemma accounted_playback_step:
  assumes "accounted (mgr el)" and "playback_event e"
  shows "accounted (mgr (step hc el e))"
proof (cases e)
  case (Message message)
  have "accounted (mgr (call_next h message fcs rs (el\<lparr>next_id := n\<rparr>)))" for h fcs rs n
    using assms(1) by (intro accounted_call_next) simp
  with assms(1) Message show ?thesis
    by (simp add: on_message_def accounted_finish_message split: option.splits)
next
  case (Settled h outcome)
  with assms(1) show ?thesis
    by (simp add: on_settled_def accounted_call_next split: option.splits)
next
  case (ClockTick d)
  with assms(1) show ?thesis by (simp add: accounted_tick)
next
  case (SourceEnded i)
  with assms(1) show ?thesis by (simp add: accounted_source_ended)
qed (use assms(2) in simp_all)

lemma accounted_playback_run:
  "list_all playback_event events \<Longrightarrow> accounted (mgr el) \<Longrightarrow> accounted (mgr (run hc events el))"
  by (induction events arbitrary: el) (simp_all add: run_Nil run_Cons accounted_playback_step)

text \<open>
  The \<^verbatim>\<open>onclose\<close> callback does not look at which session has closed. When it runs for
  the session that a restart has closed, the manager forgets the new session, which stays
  open: the fields no longer account for what is held.
\<close>

lemma accounted_lost:
  "\<not> accounted (mgr (run True
      [StartCalled, SessionAwaited 0 False, MediaSettled 0 None True, Closed 4] idle))"
  by (simp add: loop_defs manager_defs running_eq accounted_def open_sessions_def step_defs)


section \<open>Claims about the life cycle\<close>





end
